theory Spec2Isabelle
  imports Complex_Main "HOL-Library.Log_Nat"
begin

section \<open>Data model\<close>

text \<open>
  The program of \<^verbatim>\<open>main.go\<close> reads a bank statement and a budget export, parses both
  into \<^verbatim>\<open>Transaction\<close> values and links every bank transaction with the budget
  transaction that matches it.

  A \<^verbatim>\<open>*Transaction\<close> stored in the field \<^verbatim>\<open>Matching\<close> always points into one of the two
  slices handed to \<^verbatim>\<open>compareTransactions\<close> (\<^verbatim>\<open>&bankTransactions[i]\<close> or
  \<^verbatim>\<open>&budgetTransactions[j]\<close>); a pointer is therefore the slice together with the index,
  and \<^verbatim>\<open>nil\<close> is \<open>None\<close>.
\<close>

datatype tref = BankRef nat | BudgetRef nat

text \<open>
  \<^verbatim>\<open>Timestamp\<close> is a \<^verbatim>\<open>time.Time\<close>. The only place that creates one is \<^verbatim>\<open>time.Parse\<close>
  with the date-only layout \<^verbatim>\<open>01/02/2006\<close>, which yields midnight UTC of the parsed day, so
  a timestamp is the number of days since 1970-01-01. \<^verbatim>\<open>Amount\<close> is a Go \<^verbatim>\<open>int\<close>; the program
  only compares amounts, so it is an \<open>int\<close> here.
\<close>

record Transaction =
  Timestamp :: int
  Description :: string
  Details :: string
  Amount :: int
  Matching :: "tref option"

record Filter =
  FilterRegex :: string
  MinAmount :: int
  MaxAmount :: int

text \<open>
  A call of the program either returns a value, returns a non-nil \<^verbatim>\<open>error\<close>, or panics
  (an index out of range stops the whole process).
\<close>

datatype error = InvalidTimestamp | InvalidAmount | StartNotFound | ReadFailed | UnmarshalFailed

datatype 'a result = Ok 'a | Err error | Panic


section \<open>Library functions the parser calls\<close>

subsection \<open>\<^verbatim>\<open>time.Parse("01/02/2006", s)\<close>\<close>

definition isDigit :: "char \<Rightarrow> bool" where
  "isDigit c = (48 \<le> (of_char c :: nat) \<and> (of_char c :: nat) \<le> 57)"

definition digitVal :: "char \<Rightarrow> nat" where
  "digitVal c = of_char c - 48"

text \<open>\<^verbatim>\<open>getnum(value, true)\<close>: exactly two digits are required.\<close>

fun getnum :: "string \<Rightarrow> (nat \<times> string) option" where
  "getnum (a # b # rest) =
     (if isDigit a \<and> isDigit b then Some (digitVal a * 10 + digitVal b, rest) else None)"
| "getnum _ = None"

text \<open>\<^verbatim>\<open>skip(value, "/")\<close>: the literal separator of the layout.\<close>

fun skipSlash :: "string \<Rightarrow> string option" where
  "skipSlash (c # rest) = (if c = CHR ''/'' then Some rest else None)"
| "skipSlash [] = None"

text \<open>The year \<^verbatim>\<open>2006\<close> of the layout: four characters, all of them digits.\<close>

definition getyear :: "string \<Rightarrow> (nat \<times> string) option" where
  "getyear v =
     (if length v < 4 \<or> \<not> list_all isDigit (take 4 v) then None
      else Some (foldl (\<lambda>n c. n * 10 + digitVal c) 0 (take 4 v), drop 4 v))"

definition isLeap :: "int \<Rightarrow> bool" where
  "isLeap y = (y mod 4 = 0 \<and> (y mod 100 \<noteq> 0 \<or> y mod 400 = 0))"

definition daysIn :: "int \<Rightarrow> int \<Rightarrow> int" where
  "daysIn m y =
     (if m = 2 then (if isLeap y then 29 else 28)
      else if m = 4 \<or> m = 6 \<or> m = 9 \<or> m = 11 then 30 else 31)"

text \<open>The day number of a date of the proleptic Gregorian calendar, 1970-01-01 being day 0.\<close>

definition daysSinceEpoch :: "int \<Rightarrow> int \<Rightarrow> int \<Rightarrow> int" where
  "daysSinceEpoch y m d =
     (let y' = (if m \<le> 2 then y - 1 else y);
          era = y' div 400;
          yoe = y' - era * 400;
          mp = (m + 9) mod 12;
          doy = (153 * mp + 2) div 5 + d - 1;
          doe = yoe * 365 + yoe div 4 - yoe div 100 + doy
      in era * 146097 + doe - 719468)"

text \<open>
  The parse itself: month, separator, day, separator, year, and nothing after the year;
  then the month must be one of 1 to 12 and the day must exist in that month.
  \<open>None\<close> stands for a non-nil error.
\<close>

definition time_Parse :: "string \<Rightarrow> int option" where
  "time_Parse s =
     (case getnum s of None \<Rightarrow> None
      | Some (month, s1) \<Rightarrow>
     (case skipSlash s1 of None \<Rightarrow> None
      | Some s2 \<Rightarrow>
     (case getnum s2 of None \<Rightarrow> None
      | Some (day, s3) \<Rightarrow>
     (case skipSlash s3 of None \<Rightarrow> None
      | Some s4 \<Rightarrow>
     (case getyear s4 of None \<Rightarrow> None
      | Some (year, s5) \<Rightarrow>
         if s5 \<noteq> [] then None
         else if month < 1 \<or> 12 < month then None
         else if day < 1 \<or> int day > daysIn (int month) (int year) then None
         else Some (daysSinceEpoch (int year) (int month) (int day)))))))"


subsection \<open>\<^verbatim>\<open>float64\<close>\<close>

text \<open>
  A \<^verbatim>\<open>float64\<close> is a finite binary64 number (kept as the rational it denotes), an infinity
  or a NaN. \<open>round64\<close> is the rounding every IEEE 754 operation ends with: to the nearest
  binary64 number, ties to the even significand, with the gradual underflow below
  \<open>2\<^sup>-\<^sup>1\<^sup>0\<^sup>2\<^sup>2\<close> and the overflow to an infinity. With \<open>e\<close> the binary exponent of the
  number, the candidates are the multiples \<open>m * 2\<^sup>e\<^sup>-\<^sup>5\<^sup>2\<close>; the rounded number
  reaches \<open>2\<^sup>1\<^sup>0\<^sup>2\<^sup>4\<close>, and overflows, when \<open>e\<close> is 1024 or more, or \<open>e\<close> is 1023 and the
  significand \<open>m\<close> has been rounded up to \<open>2\<^sup>5\<^sup>3\<close> = 9007199254740992.
\<close>

datatype float64 = Finite rat | PosInf | NegInf | NaN

definition pow2 :: "int \<Rightarrow> rat" where
  "pow2 k = (if 0 \<le> k then 2 ^ nat k else 1 / 2 ^ nat (- k))"

text \<open>\<open>\<lfloor>log\<^sub>2 a\<rfloor>\<close> for a positive rational.\<close>

definition ilog2 :: "rat \<Rightarrow> int" where
  "ilog2 a = (if 1 \<le> a then bitlen \<lfloor>a\<rfloor> - 1 else - bitlen (\<lceil>1 / a\<rceil> - 1))"

definition roundHalfEven :: "rat \<Rightarrow> int" where
  "roundHalfEven x =
     (let f = \<lfloor>x\<rfloor>; r = x - of_int f
      in if r < 1 / 2 then f else if 1 / 2 < r then f + 1 else if even f then f else f + 1)"

definition round64 :: "rat \<Rightarrow> float64" where
  "round64 x =
     (if x = 0 then Finite 0
      else let a = \<bar>x\<bar>;
               e = max (ilog2 a) (- 1022);
               q = pow2 (e - 52);
               m = roundHalfEven (a / q)
           in if 1024 \<le> e \<or> (e = 1023 \<and> m = 9007199254740992)
              then (if 0 < x then PosInf else NegInf)
              else Finite (if 0 < x then of_int m * q else - (of_int m * q)))"

text \<open>The product \<^verbatim>\<open>a * 100\<close> of the program: the exact product, rounded.\<close>

definition mul100 :: "float64 \<Rightarrow> float64" where
  "mul100 a = (case a of Finite x \<Rightarrow> round64 (x * 100) | PosInf \<Rightarrow> PosInf
               | NegInf \<Rightarrow> NegInf | NaN \<Rightarrow> NaN)"

text \<open>
  The conversion \<^verbatim>\<open>(int)(f)\<close> discards the fraction (truncation towards zero). Where the
  truncated value does not fit the 64-bit \<^verbatim>\<open>int\<close> the language leaves the result to the
  implementation; amd64 yields the smallest \<^verbatim>\<open>int\<close> there, as it does for infinities and
  NaN.
\<close>

definition truncate :: "rat \<Rightarrow> int" where
  "truncate x = (if 0 \<le> x then \<lfloor>x\<rfloor> else \<lceil>x\<rceil>)"

definition toInt :: "float64 \<Rightarrow> int" where
  "toInt f =
     (case f of
        Finite x \<Rightarrow>
          (if - (2 ^ 63) \<le> truncate x \<and> truncate x < 2 ^ 63 then truncate x else - (2 ^ 63))
      | _ \<Rightarrow> - (2 ^ 63))"


subsection \<open>\<^verbatim>\<open>strconv.ParseFloat(s, 64)\<close>\<close>

text \<open>
  \<^verbatim>\<open>strconv.ParseFloat\<close> is a parameter \<open>pf\<close> of the parser below (\<open>None\<close> is a non-nil
  error). Its grammar has grown over the releases of the library (exponents,
  hexadecimal mantissas, underscores, \<^verbatim>\<open>inf\<close>, \<^verbatim>\<open>nan\<close>); on a plain decimal numeral, an
  optional sign and digits with at most one point, every release returns the binary64
  number nearest to the decimal value. \<open>decimal_ParseFloat\<close> is that part of the
  function and is what the concrete evaluations below pass for \<open>pf\<close>.
\<close>

definition digitsVal :: "string \<Rightarrow> nat" where
  "digitsVal ds = foldl (\<lambda>n c. n * 10 + digitVal c) 0 ds"

definition decimalValue :: "string \<Rightarrow> rat option" where
  "decimalValue body =
     (let ip = takeWhile isDigit body; rest = dropWhile isDigit body
      in case rest of
           [] \<Rightarrow> (if ip = [] then None else Some (of_nat (digitsVal ip)))
         | c # fp \<Rightarrow>
             (if c = CHR ''.'' \<and> list_all isDigit fp \<and> (ip \<noteq> [] \<or> fp \<noteq> [])
              then Some (of_nat (digitsVal (ip @ fp)) / 10 ^ length fp)
              else None))"

definition decimal_ParseFloat :: "string \<Rightarrow> float64 option" where
  "decimal_ParseFloat s =
     (case s of
        [] \<Rightarrow> None
      | c # cs \<Rightarrow>
          if c = CHR ''-'' then
            (case decimalValue cs of None \<Rightarrow> None
             | Some v \<Rightarrow> (case round64 (- v) of Finite x \<Rightarrow> Some (Finite x) | _ \<Rightarrow> None))
          else
            (case decimalValue (if c = CHR ''+'' then cs else s) of None \<Rightarrow> None
             | Some v \<Rightarrow> (case round64 v of Finite x \<Rightarrow> Some (Finite x) | _ \<Rightarrow> None)))"


section \<open>The record parser\<close>

text \<open>\<^verbatim>\<open>strings.Replace(s, ",", "", -1)\<close> removes every comma.\<close>

definition stripCommas :: "string \<Rightarrow> string" where
  "stripCommas s = filter (\<lambda>c. c \<noteq> CHR '','') s"

text \<open>
  \<^verbatim>\<open>record[i]\<close>: Go checks the index at run time and panics when it is negative or not
  below \<^verbatim>\<open>len(record)\<close>.
\<close>

definition inRange :: "'a list \<Rightarrow> int \<Rightarrow> bool" where
  "inRange xs i = (0 \<le> i \<and> i < int (length xs))"

text \<open>
  \<^verbatim>\<open>parseTransaction\<close>, statement by statement: the timestamp is read and parsed first,
  then the amount, then the details (only for a positive \<^verbatim>\<open>detailsIndex\<close>), then the
  description when the struct literal is built. The new transaction has no
  \<^verbatim>\<open>Matching\<close>.
\<close>

definition parseTransaction ::
  "(string \<Rightarrow> float64 option) \<Rightarrow> string list \<Rightarrow> int \<Rightarrow> int \<Rightarrow> int \<Rightarrow> int \<Rightarrow> Transaction result"
where
  "parseTransaction pf record timestampIndex descriptionIndex amountIndex detailsIndex =
     (if \<not> inRange record timestampIndex then Panic
      else case time_Parse (record ! nat timestampIndex) of
        None \<Rightarrow> Err InvalidTimestamp
      | Some t \<Rightarrow>
          if \<not> inRange record amountIndex then Panic
          else case pf (stripCommas (record ! nat amountIndex)) of
            None \<Rightarrow> Err InvalidAmount
          | Some a \<Rightarrow>
              if 0 < detailsIndex \<and> \<not> inRange record detailsIndex then Panic
              else if \<not> inRange record descriptionIndex then Panic
              else Ok \<lparr> Timestamp = t,
                        Description = record ! nat descriptionIndex,
                        Details = (if 0 < detailsIndex then record ! nat detailsIndex else []),
                        Amount = toInt (mul100 a),
                        Matching = None \<rparr>)"

text \<open>
  The loop both profiles run over their rows: a row whose parse returns an error is
  logged and skipped, a parsed row is appended, and a panic ends the run.
\<close>

fun parseRows ::
  "(string \<Rightarrow> float64 option) \<Rightarrow> int \<Rightarrow> int \<Rightarrow> int \<Rightarrow> int \<Rightarrow> string list list \<Rightarrow>
   Transaction list \<Rightarrow> Transaction list result"
where
  "parseRows pf ti di ai xi [] transactions = Ok transactions"
| "parseRows pf ti di ai xi (record # records) transactions =
     (case parseTransaction pf record ti di ai xi of
        Panic \<Rightarrow> Panic
      | Err e \<Rightarrow> parseRows pf ti di ai xi records transactions
      | Ok transaction \<Rightarrow> parseRows pf ti di ai xi records (transactions @ [transaction]))"

text \<open>The test that recognises the header row of a bank statement.\<close>

definition isHeader :: "string list \<Rightarrow> bool" where
  "isHeader record =
     (length record > 3 \<and> record ! 0 = ''Date'' \<and> record ! 1 = ''Description''
      \<and> record ! 2 = ''Amount'')"

text \<open>
  The first loop of \<^verbatim>\<open>parseBankTransactions\<close>: \<open>i\<close> is the index of the row at the head
  of the list and \<open>start\<close> the value of the variable so far.
\<close>

fun findStart :: "string list list \<Rightarrow> int \<Rightarrow> int \<Rightarrow> int" where
  "findStart [] i start = start"
| "findStart (record # records) i start =
     findStart records (i + 1) (if isHeader record then i + 2 else start)"

definition parseBankTransactions ::
  "(string \<Rightarrow> float64 option) \<Rightarrow> string list list \<Rightarrow> Transaction list result"
where
  "parseBankTransactions pf bankRecords =
     (let start = findStart bankRecords 0 (- 1)
      in if start < 0 then Err StartNotFound
         else parseRows pf 0 1 2 (- 1) (drop (nat start) bankRecords) [])"

definition parseBudgetTransactions ::
  "(string \<Rightarrow> float64 option) \<Rightarrow> string list list \<Rightarrow> Transaction list result"
where
  "parseBudgetTransactions pf budgetRecords =
     parseRows pf 0 2 4 3 (drop 1 budgetRecords) []"


section \<open>The filter engine\<close>

text \<open>
  The regular-expression engine of the library is a parameter: \<open>Compile pattern\<close> is
  \<open>None\<close> when \<^verbatim>\<open>regexp.Compile\<close> returns an error and otherwise the compiled
  expression, given by the texts it matches. \<^verbatim>\<open>regexp.MatchString\<close> is the library's
  wrapper around it: it compiles the pattern at every call and returns
  \<^verbatim>\<open>(false, err)\<close> when the pattern does not compile. The second component says
  whether the returned error is non-nil.
\<close>

type_synonym regexp = "string \<Rightarrow> bool"

definition regexp_MatchString ::
  "(string \<Rightarrow> regexp option) \<Rightarrow> string \<Rightarrow> string \<Rightarrow> bool \<times> bool"
where
  "regexp_MatchString Compile pattern s =
     (case Compile pattern of None \<Rightarrow> (False, True) | Some re \<Rightarrow> (re s, False))"

text \<open>\<^verbatim>\<open>isFiltered\<close>: the loop over the filters, which drops the error of each match.\<close>

fun isFiltered :: "(string \<Rightarrow> regexp option) \<Rightarrow> Transaction \<Rightarrow> Filter list \<Rightarrow> bool" where
  "isFiltered Compile t [] = False"
| "isFiltered Compile t (f # filters) =
     (let match = fst (regexp_MatchString Compile (FilterRegex f) (Description t))
      in if match \<and> Amount t \<ge> MinAmount f \<and> Amount t \<le> MaxAmount f then True
         else isFiltered Compile t filters)"

text \<open>
  \<^verbatim>\<open>loadFilters\<close> reads the file and decodes it; \<^verbatim>\<open>ioutil.ReadFile\<close> and
  \<^verbatim>\<open>json.Unmarshal\<close> are parameters (\<open>None\<close> is a non-nil error). Nothing else happens
  to the decoded list.
\<close>

definition loadFilters ::
  "(string \<Rightarrow> string option) \<Rightarrow> (string \<Rightarrow> Filter list option) \<Rightarrow> string \<Rightarrow> Filter list result"
where
  "loadFilters ReadFile Unmarshal filterPath =
     (case ReadFile filterPath of
        None \<Rightarrow> Err ReadFailed
      | Some buf \<Rightarrow>
          (case Unmarshal buf of None \<Rightarrow> Err UnmarshalFailed | Some filters \<Rightarrow> Ok filters))"


section \<open>The reconciliation engine\<close>

subsection \<open>Operations on timestamps\<close>

text \<open>
  \<^verbatim>\<open>t.AddDate(0, 0, days)\<close>, \<^verbatim>\<open>t.Before(u)\<close> and \<^verbatim>\<open>t.After(u)\<close> on UTC midnights.
\<close>

definition AddDate :: "int \<Rightarrow> int \<Rightarrow> int" where
  "AddDate t days = t + days"

definition Before :: "int \<Rightarrow> int \<Rightarrow> bool" where
  "Before t u = (t < u)"

definition After :: "int \<Rightarrow> int \<Rightarrow> bool" where
  "After t u = (t > u)"

text \<open>
  \<^verbatim>\<open>t.Sub(u)\<close> is a \<^verbatim>\<open>Duration\<close>, a 64-bit count of nanoseconds: the difference, or
  the largest or smallest \<^verbatim>\<open>Duration\<close> when the difference does not fit.
\<close>

definition Sub :: "int \<Rightarrow> int \<Rightarrow> int" where
  "Sub t u =
     (let d = (t - u) * 86400000000000
      in if d < - (2 ^ 63) then - (2 ^ 63) else if 2 ^ 63 - 1 < d then 2 ^ 63 - 1 else d)"

text \<open>
  \<^verbatim>\<open>d.Hours()\<close> is a \<^verbatim>\<open>float64\<close>. A duration between two midnights that fits is a whole
  multiple of 24 hours below \<open>2\<^sup>5\<^sup>3\<close>, which binary64 holds exactly; the two
  saturated durations are about 2562047.8 hours in absolute value, and their rounding
  does not move them across any number they are compared with (0 and numbers up to
  99999). So the value is the exact quotient.
\<close>

definition Hours :: "int \<Rightarrow> rat" where
  "Hours d = of_int d / 3600000000000"

subsection \<open>\<^verbatim>\<open>compareTransactions\<close>\<close>

text \<open>
  The two slices are written through the pointers \<^verbatim>\<open>bankT\<close>, \<^verbatim>\<open>budgetT\<close> and
  \<^verbatim>\<open>closest\<close>, so they are part of the state of the loop together with the result list.
\<close>

record state =
  bankTransactions :: "Transaction list"
  budgetTransactions :: "Transaction list"
  missingTransactions :: "Transaction list"

text \<open>
  The inner loop over the budget transactions: the indices, in order, of those that
  have the amount of \<open>bankT\<close> and no \<^verbatim>\<open>Matching\<close> yet.
\<close>

definition potentialMatches :: "Transaction \<Rightarrow> Transaction list \<Rightarrow> nat list" where
  "potentialMatches bankT budgetTs =
     filter (\<lambda>budgetIndex.
        Amount bankT = Amount (budgetTs ! budgetIndex)
        \<and> Matching (budgetTs ! budgetIndex) = None) [0..<length budgetTs]"

text \<open>
  The loop that picks the closest potential match; the state is the pair of the
  variables \<^verbatim>\<open>closest\<close> and \<^verbatim>\<open>closestDuration\<close>, and \<open>delta\<close> is the number
  \<^verbatim>\<open>bankT.Timestamp.Sub(pm.Timestamp).Hours()\<close> the loop computes for a potential match.
\<close>

definition delta :: "Transaction \<Rightarrow> Transaction \<Rightarrow> rat" where
  "delta bankT pm = Hours (Sub (Timestamp bankT) (Timestamp pm))"

fun closestLoop ::
  "Transaction \<Rightarrow> Transaction list \<Rightarrow> nat list \<Rightarrow> nat option \<times> rat \<Rightarrow> nat option \<times> rat"
where
  "closestLoop bankT budgetTs [] (closest, closestDuration) = (closest, closestDuration)"
| "closestLoop bankT budgetTs (pm # pms) (closest, closestDuration) =
     (let d = delta bankT (budgetTs ! pm)
      in if d \<ge> 0 \<and> d < closestDuration
         then closestLoop bankT budgetTs pms (Some pm, d)
         else closestLoop bankT budgetTs pms (closest, closestDuration))"

text \<open>
  Lines 232 to 265 of the body of the outer loop: the potential matches of \<open>bankT\<close> and
  the value of \<^verbatim>\<open>closest\<close> after the selection, which starts from \<^verbatim>\<open>nil\<close> and a
  \<^verbatim>\<open>closestDuration\<close> of 99999 hours.
\<close>

definition closestMatch :: "Transaction \<Rightarrow> Transaction list \<Rightarrow> nat option" where
  "closestMatch bankT budgetTs =
     (let pms = potentialMatches bankT budgetTs
      in if length pms > 0 then fst (closestLoop bankT budgetTs pms (None, 99999)) else None)"

text \<open>
  The test of lines 269 to 271 on the closest match: strictly before the day
  \<open>dateMatchRangeDays\<close> after the bank transaction and strictly after the day
  \<open>dateMatchRangeDays\<close> before it.
\<close>

definition closeEnough :: "int \<Rightarrow> Transaction \<Rightarrow> Transaction \<Rightarrow> bool" where
  "closeEnough dateMatchRangeDays bankT closest =
     (Before (Timestamp closest) (AddDate (Timestamp bankT) dateMatchRangeDays)
      \<and> After (Timestamp closest) (AddDate (Timestamp bankT) (- 1 * dateMatchRangeDays)))"

text \<open>
  The body of the outer loop for one \<^verbatim>\<open>bankIndex\<close>. \<open>dateMatchRangeDays\<close> is the
  package variable of that name (7 in the program). A filtered bank transaction is
  left alone (\<^verbatim>\<open>continue\<close>); otherwise the closest match, when there is one and it is
  close enough, is linked in both directions, and a bank transaction that has no
  \<^verbatim>\<open>Matching\<close> at the end of the round is copied to the result.
\<close>

definition loopBody ::
  "(string \<Rightarrow> regexp option) \<Rightarrow> int \<Rightarrow> Filter list \<Rightarrow> nat \<Rightarrow> state \<Rightarrow> state"
where
  "loopBody Compile dateMatchRangeDays filters bankIndex s =
     (let bankT = bankTransactions s ! bankIndex
      in if isFiltered Compile bankT filters then s
         else
           let s' = (case closestMatch bankT (budgetTransactions s) of
                       None \<Rightarrow> s
                     | Some c \<Rightarrow>
                         if closeEnough dateMatchRangeDays bankT (budgetTransactions s ! c)
                         then s\<lparr> bankTransactions :=
                                   (bankTransactions s)
                                     [bankIndex := bankT\<lparr>Matching := Some (BudgetRef c)\<rparr>],
                                 budgetTransactions :=
                                   (budgetTransactions s)
                                     [c := (budgetTransactions s ! c)
                                             \<lparr>Matching := Some (BankRef bankIndex)\<rparr>] \<rparr>
                         else s)
           in if Matching (bankTransactions s' ! bankIndex) = None
              then s'\<lparr> missingTransactions :=
                         missingTransactions s' @ [bankTransactions s' ! bankIndex] \<rparr>
              else s')"

text \<open>The state after the first \<open>n\<close> rounds of the outer loop.\<close>

definition rounds ::
  "(string \<Rightarrow> regexp option) \<Rightarrow> int \<Rightarrow> Filter list \<Rightarrow> nat \<Rightarrow> state \<Rightarrow> state"
where
  "rounds Compile dateMatchRangeDays filters n s =
     fold (loopBody Compile dateMatchRangeDays filters) [0..<n] s"

text \<open>
  \<^verbatim>\<open>compareTransactions\<close> runs the loop over all bank transactions. Its Go result is the
  list \<open>missingTransactions\<close> of the final state (the error is always nil); the two
  other components are the slices as the caller finds them afterwards.
\<close>

definition initial :: "Transaction list \<Rightarrow> Transaction list \<Rightarrow> state" where
  "initial bankTs budgetTs =
     \<lparr> bankTransactions = bankTs, budgetTransactions = budgetTs, missingTransactions = [] \<rparr>"

definition compareTransactions ::
  "(string \<Rightarrow> regexp option) \<Rightarrow> int \<Rightarrow> Transaction list \<Rightarrow> Transaction list \<Rightarrow> Filter list \<Rightarrow> state"
where
  "compareTransactions Compile dateMatchRangeDays bankTs budgetTs filters =
     rounds Compile dateMatchRangeDays filters (length bankTs) (initial bankTs budgetTs)"

text \<open>
  The transactions \<^verbatim>\<open>main\<close> passes come from \<^verbatim>\<open>parseTransaction\<close>, which leaves
  \<^verbatim>\<open>Matching\<close> nil: no transaction of either slice is matched when the run starts.
\<close>

definition fresh :: "Transaction list \<Rightarrow> bool" where
  "fresh ts = list_all (\<lambda>t. Matching t = None) ts"


section \<open>Instances of the library parameters for closed examples\<close>

text \<open>
  A pattern of letters, digits and spaces is a valid regular expression that matches
  the texts containing it; an unclosed parenthesis is not a regular expression.
  \<open>literal_Compile\<close> is \<^verbatim>\<open>regexp.Compile\<close> on these patterns (it rejects every other
  pattern) and stands for the engine in the closed examples.
\<close>

definition isPlain :: "char \<Rightarrow> bool" where
  "isPlain c =
     (let n = (of_char c :: nat)
      in (48 \<le> n \<and> n \<le> 57) \<or> (65 \<le> n \<and> n \<le> 90) \<or> (97 \<le> n \<and> n \<le> 122) \<or> n = 32)"

fun contains :: "string \<Rightarrow> string \<Rightarrow> bool" where
  "contains [] p = (p = [])"
| "contains (c # cs) p = (take (length p) (c # cs) = p \<or> contains cs p)"

definition literal_Compile :: "string \<Rightarrow> regexp option" where
  "literal_Compile p = (if list_all isPlain p then Some (\<lambda>s. contains s p) else None)"

text \<open>
  The invariant of the outer loop before round \<open>n\<close>, for a run started on \<open>bankTs\<close> and
  \<open>budgetTs\<close>: the slices keep their lengths and every field but \<^verbatim>\<open>Matching\<close>; a bank
  transaction with a \<^verbatim>\<open>Matching\<close> has been visited, is not filtered, and points to a
  budget transaction that points back; a budget transaction with a \<^verbatim>\<open>Matching\<close> points
  to a visited bank transaction that points back; and the result list holds the
  visited bank transactions that are neither filtered nor matched, in order.
\<close>

definition loopInv ::
  "(string \<Rightarrow> regexp option) \<Rightarrow> Filter list \<Rightarrow> Transaction list \<Rightarrow> Transaction list \<Rightarrow> nat \<Rightarrow> state \<Rightarrow> bool"
where
  "loopInv C F bankTs budgetTs n s \<longleftrightarrow>
     length (bankTransactions s) = length bankTs
     \<and> length (budgetTransactions s) = length budgetTs
     \<and> (\<forall>i<length bankTs.
           bankTransactions s ! i = (bankTs ! i)\<lparr>Matching := Matching (bankTransactions s ! i)\<rparr>)
     \<and> (\<forall>j<length budgetTs.
           budgetTransactions s ! j = (budgetTs ! j)\<lparr>Matching := Matching (budgetTransactions s ! j)\<rparr>)
     \<and> (\<forall>i<length bankTs. \<forall>m. Matching (bankTransactions s ! i) = Some m \<longrightarrow>
           i < n \<and> \<not> isFiltered C (bankTs ! i) F
           \<and> (\<exists>j<length budgetTs. m = BudgetRef j
                 \<and> Matching (budgetTransactions s ! j) = Some (BankRef i)))
     \<and> (\<forall>j<length budgetTs. \<forall>m. Matching (budgetTransactions s ! j) = Some m \<longrightarrow>
           (\<exists>i<n. i < length bankTs \<and> m = BankRef i
                 \<and> Matching (bankTransactions s ! i) = Some (BudgetRef j)))
     \<and> missingTransactions s =
           map (nth bankTs)
             (filter (\<lambda>i. \<not> isFiltered C (bankTs ! i) F \<and> Matching (bankTransactions s ! i) = None)
                [0..<n])"

text \<open>
  Transactions for the closed examples: \<open>tx day description amount\<close> is a transaction
  as \<^verbatim>\<open>parseTransaction\<close> builds it from a bank row.
\<close>

definition tx :: "int \<Rightarrow> string \<Rightarrow> int \<Rightarrow> Transaction" where
  "tx day description amount =
     \<lparr> Timestamp = day, Description = description, Details = [], Amount = amount, Matching = None \<rparr>"

definition exampleBank :: "Transaction list" where
  "exampleBank = [tx 10 ''rent'' (- 500), tx 10 ''fee'' (- 500)]"

definition exampleBudget :: "Transaction list" where
  "exampleBudget = [tx 8 ''a'' (- 500), tx 9 ''b'' (- 500), tx 9 ''c'' (- 500)]"

definition exampleFilters :: "Filter list" where
  "exampleFilters = [\<lparr> FilterRegex = ''fee'', MinAmount = - 1000, MaxAmount = 0 \<rparr>]"


text \<open>
  A filter file with one rule whose pattern is an unclosed parenthesis, and the two
  library functions \<^verbatim>\<open>loadFilters\<close> calls on it: \<open>exampleReadFile\<close> is a file system
  that holds this one file, and \<open>exampleUnmarshal\<close> is \<^verbatim>\<open>json.Unmarshal\<close> on this
  one document.
\<close>

definition exampleDocument :: string where
  \<open>exampleDocument = ''[{"regex": "(", "min": 0, "max": 100}]''\<close>

definition exampleReadFile :: "string \<Rightarrow> string option" where
  "exampleReadFile p = (if p = ''filter.json'' then Some exampleDocument else None)"

definition exampleUnmarshal :: "string \<Rightarrow> Filter list option" where
  "exampleUnmarshal buf =
     (if buf = exampleDocument
      then Some [\<lparr> FilterRegex = ''('', MinAmount = 0, MaxAmount = 100 \<rparr>] else None)"

text \<open>
  Rows of a bank statement as \<^verbatim>\<open>readFile\<close> returns them: the header, the row after it
  that carries the opening balance and no amount, and two transactions.
\<close>

definition headerRow :: "string list" where
  "headerRow = [''Date'', ''Description'', ''Amount'', ''Running Bal.'']"

definition balanceRow :: "string list" where
  "balanceRow = [''01/01/2024'', ''Beginning balance as of 01/01/2024'', [], ''1,000.00'']"

definition coffeeRow :: "string list" where
  "coffeeRow = [''01/02/2024'', ''COFFEE'', ''-4.50'', ''995.50'']"

definition rentRow :: "string list" where
  "rentRow = [''01/03/2024'', ''RENT'', ''-500.00'', ''495.50'']"


section \<open>Properties of the reconciliation engine\<close>

subsection \<open>The selection of the closest match\<close>




lemma Hours_Sub_nonneg: "0 \<le> Hours (Sub t u) \<longleftrightarrow> u \<le> t"
  by (simp add: Hours_def Sub_def Let_def)

lemma closestLoop_result:
  "closestLoop bankT B pms (c, cd) = (c', cd') \<Longrightarrow>
     (c' = c \<and> cd' = cd \<and> (\<forall>k\<in>set pms. 0 \<le> delta bankT (B ! k) \<longrightarrow> cd \<le> delta bankT (B ! k)))
     \<or> (\<exists>xs j ys. pms = xs @ j # ys \<and> c' = Some j \<and> cd' = delta bankT (B ! j)
           \<and> 0 \<le> delta bankT (B ! j) \<and> delta bankT (B ! j) < cd
           \<and> (\<forall>k\<in>set xs. 0 \<le> delta bankT (B ! k) \<longrightarrow> delta bankT (B ! j) < delta bankT (B ! k))
           \<and> (\<forall>k\<in>set ys. 0 \<le> delta bankT (B ! k) \<longrightarrow> delta bankT (B ! j) \<le> delta bankT (B ! k)))"
proof (induction pms arbitrary: c cd)
  case Nil
  then show ?case by simp
next
  case (Cons pm pms)
  let ?d = "delta bankT (B ! pm)"
  show ?case
  proof (cases "0 \<le> ?d \<and> ?d < cd")
    case True
    with Cons.prems have run: "closestLoop bankT B pms (Some pm, ?d) = (c', cd')"
      by (simp add: Let_def)
    from Cons.IH[OF run] show ?thesis
    proof
      assume same: "c' = Some pm \<and> cd' = ?d \<and> (\<forall>k\<in>set pms. 0 \<le> delta bankT (B ! k) \<longrightarrow> ?d \<le> delta bankT (B ! k))"
      show ?thesis
        apply (rule disjI2)
        apply (rule exI[of _ "[]"], rule exI[of _ pm], rule exI[of _ pms])
        using same True by simp
    next
      assume "\<exists>xs j ys. pms = xs @ j # ys \<and> c' = Some j \<and> cd' = delta bankT (B ! j)
           \<and> 0 \<le> delta bankT (B ! j) \<and> delta bankT (B ! j) < ?d
           \<and> (\<forall>k\<in>set xs. 0 \<le> delta bankT (B ! k) \<longrightarrow> delta bankT (B ! j) < delta bankT (B ! k))
           \<and> (\<forall>k\<in>set ys. 0 \<le> delta bankT (B ! k) \<longrightarrow> delta bankT (B ! j) \<le> delta bankT (B ! k))"
      then obtain xs j ys where h: "pms = xs @ j # ys" "c' = Some j" "cd' = delta bankT (B ! j)"
          "0 \<le> delta bankT (B ! j)" "delta bankT (B ! j) < ?d"
          "\<forall>k\<in>set xs. 0 \<le> delta bankT (B ! k) \<longrightarrow> delta bankT (B ! j) < delta bankT (B ! k)"
          "\<forall>k\<in>set ys. 0 \<le> delta bankT (B ! k) \<longrightarrow> delta bankT (B ! j) \<le> delta bankT (B ! k)"
        by blast
      have app: "pm # pms = (pm # xs) @ j # ys" using h(1) by simp
      have lt: "delta bankT (B ! j) < cd" using h(5) True by simp
      have before: "\<forall>k\<in>set (pm # xs). 0 \<le> delta bankT (B ! k) \<longrightarrow> delta bankT (B ! j) < delta bankT (B ! k)"
        using h(5) h(6) by simp
      show ?thesis
        apply (rule disjI2)
        apply (rule exI[of _ "pm # xs"], rule exI[of _ j], rule exI[of _ ys])
        using app h(2,3,4,7) lt before by simp
    qed
  next
    case False
    with Cons.prems have run: "closestLoop bankT B pms (c, cd) = (c', cd')"
      by (auto simp: Let_def split: if_splits)
    from False have pmok: "0 \<le> ?d \<longrightarrow> cd \<le> ?d" by auto
    from Cons.IH[OF run] show ?thesis
    proof
      assume "c' = c \<and> cd' = cd \<and> (\<forall>k\<in>set pms. 0 \<le> delta bankT (B ! k) \<longrightarrow> cd \<le> delta bankT (B ! k))"
      with pmok show ?thesis by simp
    next
      assume "\<exists>xs j ys. pms = xs @ j # ys \<and> c' = Some j \<and> cd' = delta bankT (B ! j)
           \<and> 0 \<le> delta bankT (B ! j) \<and> delta bankT (B ! j) < cd
           \<and> (\<forall>k\<in>set xs. 0 \<le> delta bankT (B ! k) \<longrightarrow> delta bankT (B ! j) < delta bankT (B ! k))
           \<and> (\<forall>k\<in>set ys. 0 \<le> delta bankT (B ! k) \<longrightarrow> delta bankT (B ! j) \<le> delta bankT (B ! k))"
      then obtain xs j ys where h: "pms = xs @ j # ys" "c' = Some j" "cd' = delta bankT (B ! j)"
          "0 \<le> delta bankT (B ! j)" "delta bankT (B ! j) < cd"
          "\<forall>k\<in>set xs. 0 \<le> delta bankT (B ! k) \<longrightarrow> delta bankT (B ! j) < delta bankT (B ! k)"
          "\<forall>k\<in>set ys. 0 \<le> delta bankT (B ! k) \<longrightarrow> delta bankT (B ! j) \<le> delta bankT (B ! k)"
        by blast
      have app: "pm # pms = (pm # xs) @ j # ys" using h(1) by simp
      have before: "\<forall>k\<in>set (pm # xs). 0 \<le> delta bankT (B ! k) \<longrightarrow> delta bankT (B ! j) < delta bankT (B ! k)"
        using h(5) h(6) pmok by auto
      show ?thesis
        apply (rule disjI2)
        apply (rule exI[of _ "pm # xs"], rule exI[of _ j], rule exI[of _ ys])
        using app h(2,3,4,5,7) before by simp
    qed
  qed
qed

lemma set_potentialMatches:
  "set (potentialMatches bankT B) =
     {k. k < length B \<and> Amount bankT = Amount (B ! k) \<and> Matching (B ! k) = None}"
  by (auto simp: potentialMatches_def)

lemma sorted_potentialMatches: "sorted_wrt (<) (potentialMatches bankT B)"
  unfolding potentialMatches_def by (rule sorted_wrt_filter) simp

lemma closestMatch_Some:
  assumes "closestMatch bankT B = Some j"
  shows "j < length B \<and> Amount bankT = Amount (B ! j) \<and> Matching (B ! j) = None
         \<and> 0 \<le> delta bankT (B ! j) \<and> delta bankT (B ! j) < 99999
         \<and> (\<forall>k<length B. Amount bankT = Amount (B ! k) \<and> Matching (B ! k) = None
               \<and> 0 \<le> delta bankT (B ! k) \<longrightarrow>
               delta bankT (B ! j) \<le> delta bankT (B ! k)
               \<and> (k < j \<longrightarrow> delta bankT (B ! j) < delta bankT (B ! k)))"
proof -
  let ?pms = "potentialMatches bankT B"
  obtain c' cd' where run: "closestLoop bankT B ?pms (None, 99999) = (c', cd')"
    by (cases "closestLoop bankT B ?pms (None, 99999)") auto
  from assms have c': "c' = Some j"
    by (auto simp: closestMatch_def Let_def run split: if_splits)
  from closestLoop_result[OF run] c'
  obtain xs ys where h: "?pms = xs @ j # ys"
      "0 \<le> delta bankT (B ! j)" "delta bankT (B ! j) < 99999"
      "\<forall>k\<in>set xs. 0 \<le> delta bankT (B ! k) \<longrightarrow> delta bankT (B ! j) < delta bankT (B ! k)"
      "\<forall>k\<in>set ys. 0 \<le> delta bankT (B ! k) \<longrightarrow> delta bankT (B ! j) \<le> delta bankT (B ! k)"
    by auto
  have "j \<in> set ?pms" using h(1) by simp
  then have jprops: "j < length B \<and> Amount bankT = Amount (B ! j) \<and> Matching (B ! j) = None"
    by (simp add: set_potentialMatches)
  have srt: "sorted_wrt (<) (xs @ j # ys)"
    using sorted_potentialMatches[of bankT B] h(1) by simp
  then have ys_gt: "\<forall>y\<in>set ys. j < y"
    by (auto simp: sorted_wrt_append)
  have "delta bankT (B ! j) \<le> delta bankT (B ! k)
        \<and> (k < j \<longrightarrow> delta bankT (B ! j) < delta bankT (B ! k))"
    if k: "k < length B" "Amount bankT = Amount (B ! k)" "Matching (B ! k) = None"
          "0 \<le> delta bankT (B ! k)" for k
  proof -
    have "k \<in> set ?pms" using k by (simp add: set_potentialMatches)
    then have "k \<in> set xs \<or> k = j \<or> k \<in> set ys" using h(1) by auto
    then show ?thesis
    proof (elim disjE)
      assume "k \<in> set xs" with h(4) k(4) show ?thesis by auto
    next
      assume "k = j" then show ?thesis by simp
    next
      assume "k \<in> set ys" with h(5) k(4) ys_gt show ?thesis by auto
    qed
  qed
  with jprops h(2,3) show ?thesis by blast
qed


lemma loopBody_filtered:
  "isFiltered C (bankTransactions s ! i) F \<Longrightarrow> loopBody C r F i s = s"
  by (simp add: loopBody_def)

lemma loopBody_unmatched:
  assumes "\<not> isFiltered C (bankTransactions s ! i) F"
    and "Matching (bankTransactions s ! i) = None"
    and "closestMatch (bankTransactions s ! i) (budgetTransactions s) = None
         \<or> (\<exists>c. closestMatch (bankTransactions s ! i) (budgetTransactions s) = Some c
                \<and> \<not> closeEnough r (bankTransactions s ! i) (budgetTransactions s ! c))"
  shows "loopBody C r F i s =
           s\<lparr>missingTransactions := missingTransactions s @ [bankTransactions s ! i]\<rparr>"
  using assms by (auto simp: loopBody_def Let_def)

lemma loopBody_matched:
  assumes "\<not> isFiltered C (bankTransactions s ! i) F"
    and "i < length (bankTransactions s)"
    and "closestMatch (bankTransactions s ! i) (budgetTransactions s) = Some c"
    and "closeEnough r (bankTransactions s ! i) (budgetTransactions s ! c)"
  shows "loopBody C r F i s =
           s\<lparr>bankTransactions :=
                (bankTransactions s)[i := (bankTransactions s ! i)\<lparr>Matching := Some (BudgetRef c)\<rparr>],
              budgetTransactions :=
                (budgetTransactions s)[c := (budgetTransactions s ! c)\<lparr>Matching := Some (BankRef i)\<rparr>]\<rparr>"
  using assms by (simp add: loopBody_def Let_def)


lemma isFiltered_Matching [simp]:
  "isFiltered C (t\<lparr>Matching := m\<rparr>) F = isFiltered C t F"
  by (induction F) simp_all

lemma delta_Matching [simp]:
  "delta (t\<lparr>Matching := m\<rparr>) u = delta t u" "delta t (u\<lparr>Matching := m\<rparr>) = delta t u"
  by (simp_all add: delta_def)

lemma closeEnough_Matching [simp]:
  "closeEnough r (t\<lparr>Matching := m\<rparr>) u = closeEnough r t u"
  "closeEnough r t (u\<lparr>Matching := m\<rparr>) = closeEnough r t u"
  by (simp_all add: closeEnough_def)

lemma rounds_0 [simp]: "rounds C r F 0 s = s"
  by (simp add: rounds_def)

lemma rounds_Suc [simp]: "rounds C r F (Suc n) s = loopBody C r F n (rounds C r F n s)"
  by (simp add: rounds_def)

lemma fresh_nth: "fresh ts \<Longrightarrow> i < length ts \<Longrightarrow> Matching (ts ! i) = None"
  by (simp add: fresh_def list_all_length)

lemma fresh_update_None: "fresh ts \<Longrightarrow> i < length ts \<Longrightarrow> (ts ! i)\<lparr>Matching := None\<rparr> = ts ! i"
  by (simp add: fresh_nth)

lemma loopInv_initial:
  "fresh bankTs \<Longrightarrow> fresh budgetTs \<Longrightarrow> loopInv C F bankTs budgetTs 0 (initial bankTs budgetTs)"
  by (simp add: loopInv_def initial_def fresh_nth)

lemma loopInv_step:
  assumes I: "loopInv C F bankTs budgetTs n s" and n: "n < length bankTs" and fr: "fresh bankTs"
  shows "loopInv C F bankTs budgetTs (Suc n) (loopBody C r F n s)"
proof -
  let ?bank = "bankTransactions s" and ?budget = "budgetTransactions s"
  let ?P = "\<lambda>s i. \<not> isFiltered C (bankTs ! i) F \<and> Matching (bankTransactions s ! i) = None"
  from I have len: "length ?bank = length bankTs" "length ?budget = length budgetTs"
    and fb: "\<And>i. i < length bankTs \<Longrightarrow> ?bank ! i = (bankTs ! i)\<lparr>Matching := Matching (?bank ! i)\<rparr>"
    and fu: "\<And>j. j < length budgetTs \<Longrightarrow> ?budget ! j = (budgetTs ! j)\<lparr>Matching := Matching (?budget ! j)\<rparr>"
    and lb: "\<And>i m. i < length bankTs \<Longrightarrow> Matching (?bank ! i) = Some m \<Longrightarrow>
               i < n \<and> \<not> isFiltered C (bankTs ! i) F
               \<and> (\<exists>j<length budgetTs. m = BudgetRef j \<and> Matching (?budget ! j) = Some (BankRef i))"
    and lu: "\<And>j m. j < length budgetTs \<Longrightarrow> Matching (?budget ! j) = Some m \<Longrightarrow>
               (\<exists>i<n. i < length bankTs \<and> m = BankRef i \<and> Matching (?bank ! i) = Some (BudgetRef j))"
    and mi: "missingTransactions s = map (nth bankTs) (filter (?P s) [0..<n])"
    by (simp_all add: loopInv_def)
  have lb': "i < Suc n \<and> \<not> isFiltered C (bankTs ! i) F
               \<and> (\<exists>j<length budgetTs. m = BudgetRef j \<and> Matching (?budget ! j) = Some (BankRef i))"
    if "i < length bankTs" "Matching (?bank ! i) = Some m" for i m
    using lb[OF that] by auto
  have lu': "\<exists>i<Suc n. i < length bankTs \<and> m = BankRef i \<and> Matching (?bank ! i) = Some (BudgetRef j)"
    if "j < length budgetTs" "Matching (?budget ! j) = Some m" for j m
    using lu[OF that] by auto
  have un: "Matching (?bank ! n) = None"
  proof (cases "Matching (?bank ! n)")
    case (Some m) with lb[OF n] show ?thesis by auto
  qed simp
  have bn: "?bank ! n = bankTs ! n"
    using fb[OF n] un fresh_update_None[OF fr n] by simp
  have filt: "isFiltered C (?bank ! n) F = isFiltered C (bankTs ! n) F"
    by (simp add: bn)
  consider
      (filtered) "isFiltered C (?bank ! n) F"
    | (unmatched) "\<not> isFiltered C (?bank ! n) F"
        "closestMatch (?bank ! n) ?budget = None
         \<or> (\<exists>c. closestMatch (?bank ! n) ?budget = Some c \<and> \<not> closeEnough r (?bank ! n) (?budget ! c))"
    | (matched) c where "\<not> isFiltered C (?bank ! n) F"
        "closestMatch (?bank ! n) ?budget = Some c" "closeEnough r (?bank ! n) (?budget ! c)"
    by (cases "closestMatch (?bank ! n) ?budget") auto
  then show ?thesis
  proof cases
    case filtered
    then have eq: "loopBody C r F n s = s" by (rule loopBody_filtered)
    have "filter (?P s) [0..<Suc n] = filter (?P s) [0..<n]"
      using filtered filt by simp
    then have 6: "missingTransactions s = map (nth bankTs) (filter (?P s) [0..<Suc n])"
      using mi by simp
    show ?thesis
      unfolding eq loopInv_def using len fb fu lb' lu' 6 by blast
  next
    case unmatched
    have eq: "loopBody C r F n s = s\<lparr>missingTransactions := missingTransactions s @ [?bank ! n]\<rparr>"
      using unmatched un by (intro loopBody_unmatched) auto
    have "filter (?P s) [0..<Suc n] = filter (?P s) [0..<n] @ [n]"
      using unmatched(1) filt un by simp
    then have 6: "missingTransactions s @ [?bank ! n] = map (nth bankTs) (filter (?P s) [0..<Suc n])"
      using mi bn by simp
    show ?thesis
      unfolding eq loopInv_def using len fb fu lb' lu' 6 by simp
  next
    case matched
    let ?bank' = "?bank[n := (?bank ! n)\<lparr>Matching := Some (BudgetRef c)\<rparr>]"
    let ?budget' = "?budget[c := (?budget ! c)\<lparr>Matching := Some (BankRef n)\<rparr>]"
    let ?s' = "s\<lparr>bankTransactions := ?bank', budgetTransactions := ?budget'\<rparr>"
    have eq: "loopBody C r F n s = ?s'"
      using matched n len by (intro loopBody_matched) auto
    from closestMatch_Some[OF matched(2)]
    have c: "c < length ?budget" "Matching (?budget ! c) = None" by auto
    have c': "c < length budgetTs" using c len by simp
    have nb: "n < length ?bank" using n len by simp
    have 1: "length (bankTransactions ?s') = length bankTs" "length (budgetTransactions ?s') = length budgetTs"
      using len by simp_all
    have 2: "bankTransactions ?s' ! i = (bankTs ! i)\<lparr>Matching := Matching (bankTransactions ?s' ! i)\<rparr>"
      if "i < length bankTs" for i
      using that fb[of i] fb[OF n] nb bn by (cases "i = n") (simp_all add: nth_list_update)
    have 3: "budgetTransactions ?s' ! j = (budgetTs ! j)\<lparr>Matching := Matching (budgetTransactions ?s' ! j)\<rparr>"
      if "j < length budgetTs" for j
    proof (cases "j = c")
      case True
      have "(?budget ! c)\<lparr>Matching := Some (BankRef n)\<rparr> = (budgetTs ! c)\<lparr>Matching := Some (BankRef n)\<rparr>"
        using fu[OF c'] by (metis Transaction.update_convs(5) Transaction.surjective)
      then show ?thesis using True c by simp
    next
      case False
      then show ?thesis using that fu[of j] by (simp add: nth_list_update)
    qed
    have 4: "i < Suc n \<and> \<not> isFiltered C (bankTs ! i) F
             \<and> (\<exists>j<length budgetTs. m = BudgetRef j
                   \<and> Matching (budgetTransactions ?s' ! j) = Some (BankRef i))"
      if i: "i < length bankTs" and m: "Matching (bankTransactions ?s' ! i) = Some m" for i m
    proof (cases "i = n")
      case True
      then have "m = BudgetRef c" using m nb by simp
      then show ?thesis using True matched(1) filt c c' by auto
    next
      case False
      then have "Matching (?bank ! i) = Some m" using m by (simp add: nth_list_update)
      from lb[OF i this] obtain j where j: "i < n" "\<not> isFiltered C (bankTs ! i) F"
          "j < length budgetTs" "m = BudgetRef j" "Matching (?budget ! j) = Some (BankRef i)"
        by auto
      then have "j \<noteq> c" using c(2) by auto
      then have "Matching (budgetTransactions ?s' ! j) = Some (BankRef i)"
        using j(5) by (simp add: nth_list_update)
      with j show ?thesis by auto
    qed
    have 5: "\<exists>i<Suc n. i < length bankTs \<and> m = BankRef i
                \<and> Matching (bankTransactions ?s' ! i) = Some (BudgetRef j)"
      if j: "j < length budgetTs" and m: "Matching (budgetTransactions ?s' ! j) = Some m" for j m
    proof (cases "j = c")
      case True
      then have "m = BankRef n" using m c by simp
      then show ?thesis using True n nb by auto
    next
      case False
      then have "Matching (?budget ! j) = Some m" using m by (simp add: nth_list_update)
      from lu[OF j this] obtain i where i: "i < n" "i < length bankTs" "m = BankRef i"
          "Matching (?bank ! i) = Some (BudgetRef j)"
        by auto
      then have "Matching (bankTransactions ?s' ! i) = Some (BudgetRef j)"
        by (simp add: nth_list_update)
      with i show ?thesis by auto
    qed
    have "filter (?P ?s') [0..<n] = filter (?P s) [0..<n]"
      by (rule filter_cong) (auto simp: nth_list_update)
    moreover have "\<not> ?P ?s' n" using nb by simp
    ultimately have "filter (?P ?s') [0..<Suc n] = filter (?P s) [0..<n]" by simp
    then have 6: "missingTransactions ?s' = map (nth bankTs) (filter (?P ?s') [0..<Suc n])"
      using mi by simp
    show ?thesis
      unfolding eq loopInv_def using 1 2 3 4 5 6 by blast
  qed
qed

lemma loopInv_rounds:
  "fresh bankTs \<Longrightarrow> fresh budgetTs \<Longrightarrow> n \<le> length bankTs \<Longrightarrow>
   loopInv C F bankTs budgetTs n (rounds C r F n (initial bankTs budgetTs))"
proof (induction n)
  case 0
  then show ?case by (simp add: loopInv_initial)
next
  case (Suc n)
  then show ?case by (simp add: loopInv_step)
qed


lemma loopBody_bank_other:
  "i \<noteq> n \<Longrightarrow> bankTransactions (loopBody C r F n s) ! i = bankTransactions s ! i"
  by (simp add: loopBody_def Let_def split: option.splits)

lemma loopBody_budget_kept:
  assumes "Matching (budgetTransactions s ! j) = Some x"
  shows "Matching (budgetTransactions (loopBody C r F n s) ! j) = Some x"
proof -
  have "j \<noteq> c" if "closestMatch (bankTransactions s ! n) (budgetTransactions s) = Some c" for c
    using closestMatch_Some[OF that] assms by auto
  then show ?thesis
    using assms by (auto simp: loopBody_def Let_def split: option.splits)
qed

lemma rounds_bank_stable:
  assumes "n \<le> m" and "i < n"
  shows "bankTransactions (rounds C r F m s) ! i = bankTransactions (rounds C r F n s) ! i"
  using assms
proof (induction m rule: nat_induct_at_least)
  case base
  show ?case by simp
next
  case (Suc k)
  then show ?case by (simp add: loopBody_bank_other)
qed

lemma rounds_budget_kept:
  assumes "n \<le> m" and "Matching (budgetTransactions (rounds C r F n s) ! j) = Some x"
  shows "Matching (budgetTransactions (rounds C r F m s) ! j) = Some x"
  using assms
proof (induction m rule: nat_induct_at_least)
  case base
  then show ?case by simp
next
  case (Suc k)
  then show ?case by (simp add: loopBody_budget_kept)
qed

lemma loopInv_pending:
  assumes "loopInv C F bankTs budgetTs n s" and "fresh bankTs" and "n \<le> i" and "i < length bankTs"
  shows "bankTransactions s ! i = bankTs ! i"
proof -
  have "Matching (bankTransactions s ! i) = None"
  proof (cases "Matching (bankTransactions s ! i)")
    case (Some m)
    with assms(1,3,4) show ?thesis by (auto simp: loopInv_def)
  qed simp
  moreover have "bankTransactions s ! i = (bankTs ! i)\<lparr>Matching := Matching (bankTransactions s ! i)\<rparr>"
    using assms(1,4) by (simp add: loopInv_def)
  ultimately show ?thesis using fresh_update_None[OF assms(2,4)] by simp
qed

lemma closeEnough_iff:
  "closeEnough r b c \<longleftrightarrow> \<bar>Timestamp b - Timestamp c\<bar> < r"
  by (auto simp: closeEnough_def Before_def After_def AddDate_def)

lemma delta_nonneg_iff: "0 \<le> delta b c \<longleftrightarrow> Timestamp c \<le> Timestamp b"
  by (simp add: delta_def Hours_Sub_nonneg)


lemma rounds_bank_kept:
  assumes "fresh bankTs" "fresh budgetTs" "n \<le> m" "m \<le> length bankTs" "i < length bankTs"
    and "Matching (bankTransactions (rounds C r F n (initial bankTs budgetTs)) ! i) = Some x"
  shows "Matching (bankTransactions (rounds C r F m (initial bankTs budgetTs)) ! i) = Some x"
proof -
  have "loopInv C F bankTs budgetTs n (rounds C r F n (initial bankTs budgetTs))"
    using assms by (intro loopInv_rounds) auto
  then have "i < n" using assms(5,6) by (auto simp: loopInv_def)
  then show ?thesis using rounds_bank_stable[OF assms(3)] assms(6) by simp
qed

lemma loopBody_link:
  assumes "i < length (bankTransactions s)" and "Matching (bankTransactions s ! i) = None"
  shows "Matching (bankTransactions (loopBody C r F i s) ! i) = Some x \<longleftrightarrow>
           (\<exists>c. x = BudgetRef c \<and> \<not> isFiltered C (bankTransactions s ! i) F
              \<and> closestMatch (bankTransactions s ! i) (budgetTransactions s) = Some c
              \<and> closeEnough r (bankTransactions s ! i) (budgetTransactions s ! c))"
  using assms by (auto simp: loopBody_def Let_def split: option.splits)

lemma loopInv_budget_fields:
  assumes "loopInv C F bankTs budgetTs n s" and "k < length budgetTs"
  shows "Amount (budgetTransactions s ! k) = Amount (budgetTs ! k)"
    and "Timestamp (budgetTransactions s ! k) = Timestamp (budgetTs ! k)"
    and "delta b (budgetTransactions s ! k) = delta b (budgetTs ! k)"
    and "closeEnough r b (budgetTransactions s ! k) = closeEnough r b (budgetTs ! k)"
proof -
  have eq: "budgetTransactions s ! k = (budgetTs ! k)\<lparr>Matching := Matching (budgetTransactions s ! k)\<rparr>"
    using assms by (simp add: loopInv_def)
  show "Amount (budgetTransactions s ! k) = Amount (budgetTs ! k)"
    by (subst eq) simp
  show "Timestamp (budgetTransactions s ! k) = Timestamp (budgetTs ! k)"
    by (subst eq) simp
  show "delta b (budgetTransactions s ! k) = delta b (budgetTs ! k)"
    by (subst eq) simp
  show "closeEnough r b (budgetTransactions s ! k) = closeEnough r b (budgetTs ! k)"
    by (subst eq) simp
qed

lemma final_link:
  fixes C r F bankTs budgetTs i
  defines "before \<equiv> rounds C r F i (initial bankTs budgetTs)"
    and "final \<equiv> compareTransactions C r bankTs budgetTs F"
  assumes fr: "fresh bankTs" "fresh budgetTs" and i: "i < length bankTs"
  shows "Matching (bankTransactions final ! i) = Some x \<longleftrightarrow>
           (\<exists>c<length budgetTs. x = BudgetRef c \<and> \<not> isFiltered C (bankTs ! i) F
              \<and> closestMatch (bankTs ! i) (budgetTransactions before) = Some c
              \<and> closeEnough r (bankTs ! i) (budgetTs ! c))"
proof -
  have I: "loopInv C F bankTs budgetTs i before"
    unfolding before_def using fr i by (intro loopInv_rounds) auto
  have len: "length (bankTransactions before) = length bankTs"
      "length (budgetTransactions before) = length budgetTs"
    using I by (simp_all add: loopInv_def)
  have bi: "bankTransactions before ! i = bankTs ! i"
    using loopInv_pending[OF I fr(1) _ i] by simp
  have fin: "bankTransactions final ! i = bankTransactions (loopBody C r F i before) ! i"
    unfolding final_def compareTransactions_def before_def
    using rounds_bank_stable[of "Suc i" "length bankTs" i C r F] i by simp
  have ilen: "i < length (bankTransactions before)" using i len by simp
  note link = loopBody_link[of i before C r F x, unfolded bi, OF ilen fresh_nth[OF fr(1) i]]
  have ce: "closeEnough r (bankTs ! i) (budgetTransactions before ! c)
              = closeEnough r (bankTs ! i) (budgetTs ! c)"
    if "closestMatch (bankTs ! i) (budgetTransactions before) = Some c" for c
  proof -
    from closestMatch_Some[OF that] have "c < length budgetTs" using len by simp
    then show ?thesis by (rule loopInv_budget_fields(4)[OF I])
  qed
  have cl: "c < length budgetTs"
    if "closestMatch (bankTs ! i) (budgetTransactions before) = Some c" for c
    using closestMatch_Some[OF that] len by simp
  show ?thesis
    unfolding fin link using ce cl by auto
qed

lemma final_link_back:
  assumes "fresh bankTs" "fresh budgetTs" "i < length bankTs"
    and "Matching (bankTransactions (compareTransactions C r bankTs budgetTs F) ! i) = Some x"
  shows "\<not> isFiltered C (bankTs ! i) F
         \<and> (\<exists>c<length budgetTs. x = BudgetRef c
               \<and> Matching (budgetTransactions (compareTransactions C r bankTs budgetTs F) ! c)
                   = Some (BankRef i))"
proof -
  have "loopInv C F bankTs budgetTs (length bankTs) (compareTransactions C r bankTs budgetTs F)"
    unfolding compareTransactions_def using assms(1,2) by (intro loopInv_rounds) auto
  then show ?thesis using assms(3,4) by (simp add: loopInv_def)
qed

lemma final_missing:
  assumes "fresh bankTs" "fresh budgetTs"
  shows "missingTransactions (compareTransactions C r bankTs budgetTs F) =
           map (nth bankTs)
             (filter (\<lambda>i. \<not> isFiltered C (bankTs ! i) F
                        \<and> Matching (bankTransactions (compareTransactions C r bankTs budgetTs F) ! i) = None)
                [0..<length bankTs])"
proof -
  have "loopInv C F bankTs budgetTs (length bankTs) (compareTransactions C r bankTs budgetTs F)"
    unfolding compareTransactions_def using assms(1,2) by (intro loopInv_rounds) auto
  then show ?thesis by (simp add: loopInv_def)
qed

lemma final_inv:
  assumes "fresh bankTs" "fresh budgetTs"
  shows "loopInv C F bankTs budgetTs (length bankTs) (compareTransactions C r bankTs budgetTs F)"
  unfolding compareTransactions_def using assms by (intro loopInv_rounds) auto

lemma final_budget_link:
  assumes "fresh bankTs" "fresh budgetTs" "j < length budgetTs"
    and "Matching (budgetTransactions (compareTransactions C r bankTs budgetTs F) ! j) = Some x"
  shows "\<exists>i<length bankTs. x = BankRef i
           \<and> Matching (bankTransactions (compareTransactions C r bankTs budgetTs F) ! i)
               = Some (BudgetRef j)"
  using final_inv[OF assms(1,2), of C F r] assms(3,4) unfolding loopInv_def by blast

lemma final_bank_fields:
  assumes "fresh bankTs" "fresh budgetTs" "i < length bankTs"
  shows "bankTransactions (compareTransactions C r bankTs budgetTs F) ! i =
           (bankTs ! i)\<lparr>Matching :=
              Matching (bankTransactions (compareTransactions C r bankTs budgetTs F) ! i)\<rparr>"
  using final_inv[OF assms(1,2), of C F r] assms(3) by (simp add: loopInv_def)

lemma final_bank_length:
  assumes "fresh bankTs" "fresh budgetTs"
  shows "length (bankTransactions (compareTransactions C r bankTs budgetTs F)) = length bankTs"
  using final_inv[OF assms, of C F r] by (simp add: loopInv_def)

lemma isFiltered_iff:
  "isFiltered C t fs \<longleftrightarrow>
     (\<exists>f\<in>set fs. (\<exists>re. C (FilterRegex f) = Some re \<and> re (Description t))
                  \<and> MinAmount f \<le> Amount t \<and> Amount t \<le> MaxAmount f)"
  by (induction fs) (auto simp: regexp_MatchString_def Let_def split: option.splits)

lemma filter_by_index:
  "filter P xs = map (nth xs) (filter (\<lambda>i. P (xs ! i)) [0..<length xs])"
proof (induction xs rule: rev_induct)
  case Nil
  show ?case by simp
next
  case (snoc x xs)
  have f: "filter (\<lambda>i. P ((xs @ [x]) ! i)) [0..<length xs] = filter (\<lambda>i. P (xs ! i)) [0..<length xs]"
    by (rule filter_cong) (auto simp: nth_append)
  have "map (nth (xs @ [x])) (filter (\<lambda>i. P (xs ! i)) [0..<length xs])
        = map (nth xs) (filter (\<lambda>i. P (xs ! i)) [0..<length xs])"
    by (rule map_cong) (auto simp: nth_append)
  with f have "map (nth (xs @ [x])) (filter (\<lambda>i. P ((xs @ [x]) ! i)) [0..<length xs])
        = map (nth xs) (filter (\<lambda>i. P (xs ! i)) [0..<length xs])"
    by simp
  with snoc show ?case by simp
qed

lemma fresh_exampleBank: "fresh exampleBank"
  by (simp add: fresh_def exampleBank_def tx_def)

lemma fresh_exampleBudget: "fresh exampleBudget"
  by (simp add: fresh_def exampleBudget_def tx_def)


subsection \<open>The matching links\<close>

text \<open>
  Claim C6. Take a run of \<^verbatim>\<open>compareTransactions\<close> on transactions that come from the
  parser, and the states \<open>sn\<close> and \<open>sm\<close> after \<open>n\<close> and after \<open>m \<ge> n\<close> rounds of its loop
  (\<open>m\<close> up to the number of bank transactions, where the function returns). A
  \<^verbatim>\<open>Matching\<close> that is set in \<open>sn\<close>, on either side, has the same value in \<open>sm\<close>: it is
  never reassigned or cleared. In every such state the links form a partial one-to-one
  pairing: the \<^verbatim>\<open>Matching\<close> of a bank transaction points to a budget transaction whose
  \<^verbatim>\<open>Matching\<close> points back to it, and conversely, and no two transactions of one slice
  have the same \<^verbatim>\<open>Matching\<close>.
\<close>

theorem matching_is_pairing:
  fixes Compile dateMatchRangeDays filters bankTs budgetTs n m
  defines "sn \<equiv> rounds Compile dateMatchRangeDays filters n (initial bankTs budgetTs)"
    and "sm \<equiv> rounds Compile dateMatchRangeDays filters m (initial bankTs budgetTs)"
  assumes "fresh bankTs" and "fresh budgetTs" and "n \<le> m" and "m \<le> length bankTs"
  shows "(\<forall>i<length bankTs. \<forall>x. Matching (bankTransactions sn ! i) = Some x \<longrightarrow>
            Matching (bankTransactions sm ! i) = Some x)
       \<and> (\<forall>j<length budgetTs. \<forall>x. Matching (budgetTransactions sn ! j) = Some x \<longrightarrow>
            Matching (budgetTransactions sm ! j) = Some x)
       \<and> (\<forall>i<length bankTs. \<forall>x. Matching (bankTransactions sn ! i) = Some x \<longrightarrow>
            (\<exists>j<length budgetTs. x = BudgetRef j
                \<and> Matching (budgetTransactions sn ! j) = Some (BankRef i)))
       \<and> (\<forall>j<length budgetTs. \<forall>x. Matching (budgetTransactions sn ! j) = Some x \<longrightarrow>
            (\<exists>i<length bankTs. x = BankRef i
                \<and> Matching (bankTransactions sn ! i) = Some (BudgetRef j)))
       \<and> (\<forall>i<length bankTs. \<forall>i'<length bankTs. \<forall>x.
            Matching (bankTransactions sn ! i) = Some x
            \<and> Matching (bankTransactions sn ! i') = Some x \<longrightarrow> i = i')
       \<and> (\<forall>j<length budgetTs. \<forall>j'<length budgetTs. \<forall>x.
            Matching (budgetTransactions sn ! j) = Some x
            \<and> Matching (budgetTransactions sn ! j') = Some x \<longrightarrow> j = j')"
proof -
  have n: "n \<le> length bankTs" using assms by simp
  have I: "loopInv Compile filters bankTs budgetTs n sn"
    unfolding sn_def using assms n by (intro loopInv_rounds) auto
  have kept_bank: "\<forall>i<length bankTs. \<forall>x. Matching (bankTransactions sn ! i) = Some x \<longrightarrow>
            Matching (bankTransactions sm ! i) = Some x"
    unfolding sn_def sm_def using rounds_bank_kept assms(3-6) by blast
  have kept_budget: "\<forall>j<length budgetTs. \<forall>x. Matching (budgetTransactions sn ! j) = Some x \<longrightarrow>
            Matching (budgetTransactions sm ! j) = Some x"
    unfolding sn_def sm_def using rounds_budget_kept assms(5) by blast
  have sym_bank: "\<forall>i<length bankTs. \<forall>x. Matching (bankTransactions sn ! i) = Some x \<longrightarrow>
            (\<exists>j<length budgetTs. x = BudgetRef j
                \<and> Matching (budgetTransactions sn ! j) = Some (BankRef i))"
    using I by (simp add: loopInv_def)
  have sym_budget: "\<forall>j<length budgetTs. \<forall>x. Matching (budgetTransactions sn ! j) = Some x \<longrightarrow>
            (\<exists>i<length bankTs. x = BankRef i
                \<and> Matching (bankTransactions sn ! i) = Some (BudgetRef j))"
    using I unfolding loopInv_def by blast
  have inj_bank: "\<forall>i<length bankTs. \<forall>i'<length bankTs. \<forall>x.
            Matching (bankTransactions sn ! i) = Some x
            \<and> Matching (bankTransactions sn ! i') = Some x \<longrightarrow> i = i'"
  proof (intro allI impI)
    fix i i' x
    assume h: "i < length bankTs" "i' < length bankTs"
      "Matching (bankTransactions sn ! i) = Some x \<and> Matching (bankTransactions sn ! i') = Some x"
    from sym_bank h(1,3) obtain j where "x = BudgetRef j"
      "Matching (budgetTransactions sn ! j) = Some (BankRef i)" by blast
    moreover from sym_bank h(2,3) obtain j' where "x = BudgetRef j'"
      "Matching (budgetTransactions sn ! j') = Some (BankRef i')" by blast
    ultimately show "i = i'" by simp
  qed
  have inj_budget: "\<forall>j<length budgetTs. \<forall>j'<length budgetTs. \<forall>x.
            Matching (budgetTransactions sn ! j) = Some x
            \<and> Matching (budgetTransactions sn ! j') = Some x \<longrightarrow> j = j'"
  proof (intro allI impI)
    fix j j' x
    assume h: "j < length budgetTs" "j' < length budgetTs"
      "Matching (budgetTransactions sn ! j) = Some x \<and> Matching (budgetTransactions sn ! j') = Some x"
    from sym_budget h(1,3) obtain i where "x = BankRef i"
      "Matching (bankTransactions sn ! i) = Some (BudgetRef j)" by blast
    moreover from sym_budget h(2,3) obtain i' where "x = BankRef i'"
      "Matching (bankTransactions sn ! i') = Some (BudgetRef j')" by blast
    ultimately show "j = j'" by simp
  qed
  show ?thesis
    using kept_bank kept_budget sym_bank sym_budget inj_bank inj_budget by (intro conjI)
qed

theorem matching_is_pairing_witness:
  "fresh exampleBank \<and> fresh exampleBudget \<and> (1::nat) \<le> 2 \<and> 2 \<le> length exampleBank
   \<and> Matching (bankTransactions (rounds literal_Compile 7 [] 1 (initial exampleBank exampleBudget)) ! 0)
        = Some (BudgetRef 1)
   \<and> Matching (bankTransactions (rounds literal_Compile 7 [] 2 (initial exampleBank exampleBudget)) ! 0)
        = Some (BudgetRef 1)
   \<and> Matching (budgetTransactions (rounds literal_Compile 7 [] 1 (initial exampleBank exampleBudget)) ! 1)
        = Some (BankRef 0)"
proof -
  have h3: "(1::nat) \<le> 2" by simp
  have h4: "2 \<le> length exampleBank" by (simp add: exampleBank_def)
  have len: "0 < length exampleBank" by (simp add: exampleBank_def)
  have at1: "Matching (bankTransactions (rounds literal_Compile 7 [] 1 (initial exampleBank exampleBudget)) ! 0)
        = Some (BudgetRef 1)"
    by code_simp
  note T = matching_is_pairing[OF fresh_exampleBank fresh_exampleBudget h3 h4,
      of literal_Compile 7 "[]"]
  have at2: "Matching (bankTransactions (rounds literal_Compile 7 [] 2 (initial exampleBank exampleBudget)) ! 0)
        = Some (BudgetRef 1)"
    using T[THEN conjunct1, rule_format, OF len at1] .
  have "\<exists>j<length exampleBudget. BudgetRef 1 = BudgetRef j \<and>
      Matching (budgetTransactions (rounds literal_Compile 7 [] 1 (initial exampleBank exampleBudget)) ! j)
        = Some (BankRef 0)"
    using T[THEN conjunct2, THEN conjunct2, THEN conjunct1, rule_format, OF len at1] .
  then have sym: "Matching (budgetTransactions (rounds literal_Compile 7 [] 1 (initial exampleBank exampleBudget)) ! 1)
        = Some (BankRef 0)"
    by auto
  show ?thesis
    using fresh_exampleBank fresh_exampleBudget h3 h4 at1 at2 sym by simp
qed


subsection \<open>Range acceptance\<close>

text \<open>
  Claim C1, as the code has it. Take a run on transactions that come from the parser, a
  bank transaction \<open>i\<close> that is not filtered, and the candidate \<open>c\<close> the selection of
  round \<open>i\<close> picks for it. The two \<^verbatim>\<open>Matching\<close> links between \<open>i\<close> and \<open>c\<close> are set when
  the function returns if and only if the two timestamps are strictly less than
  \<open>dateMatchRangeDays\<close> days apart. When they are \<open>dateMatchRangeDays\<close> days apart or more,
  the bank transaction has no \<^verbatim>\<open>Matching\<close> when the function returns and is in the
  result list.
\<close>

theorem range_acceptance_is_strict:
  fixes Compile dateMatchRangeDays filters bankTs budgetTs i c
  defines "before \<equiv> rounds Compile dateMatchRangeDays filters i (initial bankTs budgetTs)"
    and "final \<equiv> compareTransactions Compile dateMatchRangeDays bankTs budgetTs filters"
  assumes fr: "fresh bankTs" "fresh budgetTs" and i: "i < length bankTs"
    and nf: "\<not> isFiltered Compile (bankTs ! i) filters"
    and sel: "closestMatch (bankTs ! i) (budgetTransactions before) = Some c"
  shows "((Matching (bankTransactions final ! i) = Some (BudgetRef c)
            \<and> Matching (budgetTransactions final ! c) = Some (BankRef i))
          \<longleftrightarrow> \<bar>Timestamp (bankTs ! i) - Timestamp (budgetTs ! c)\<bar> < dateMatchRangeDays)
       \<and> (dateMatchRangeDays \<le> \<bar>Timestamp (bankTs ! i) - Timestamp (budgetTs ! c)\<bar> \<longrightarrow>
            Matching (bankTransactions final ! i) = None
            \<and> bankTs ! i \<in> set (missingTransactions final))"
proof -
  let ?near = "\<bar>Timestamp (bankTs ! i) - Timestamp (budgetTs ! c)\<bar> < dateMatchRangeDays"
  have I: "loopInv Compile filters bankTs budgetTs i before"
    unfolding before_def using fr i by (intro loopInv_rounds) auto
  have clen: "c < length budgetTs"
    using closestMatch_Some[OF sel] I by (simp add: loopInv_def)
  note fl = final_link[where C = Compile and r = dateMatchRangeDays and F = filters,
      OF fr i, folded before_def final_def]
  have link: "Matching (bankTransactions final ! i) = Some x \<longleftrightarrow> x = BudgetRef c \<and> ?near" for x
    unfolding fl using sel nf clen by (auto simp: closeEnough_iff)
  have sym: "Matching (budgetTransactions final ! c) = Some (BankRef i)"
    if "Matching (bankTransactions final ! i) = Some (BudgetRef c)"
    using final_link_back[OF fr i that[unfolded final_def]] by (simp add: final_def)
  have first: "(Matching (bankTransactions final ! i) = Some (BudgetRef c)
            \<and> Matching (budgetTransactions final ! c) = Some (BankRef i)) \<longleftrightarrow> ?near"
    using link[of "BudgetRef c"] sym by auto
  have second: "Matching (bankTransactions final ! i) = None
            \<and> bankTs ! i \<in> set (missingTransactions final)" if far: "\<not> ?near"
  proof -
    have none: "Matching (bankTransactions final ! i) = None"
    proof (cases "Matching (bankTransactions final ! i)")
      case (Some x)
      with link[of x] far show ?thesis by simp
    qed simp
    have "i \<in> set (filter (\<lambda>k. \<not> isFiltered Compile (bankTs ! k) filters
                        \<and> Matching (bankTransactions final ! k) = None) [0..<length bankTs])"
      using i nf none by simp
    then have "bankTs ! i \<in> set (missingTransactions final)"
      unfolding final_def final_missing[OF fr] set_map by (rule imageI)
    with none show ?thesis by simp
  qed
  show ?thesis using first second by auto
qed

theorem range_acceptance_is_strict_witness:
  "fresh exampleBank \<and> fresh exampleBudget \<and> 0 < length exampleBank
   \<and> \<not> isFiltered literal_Compile (exampleBank ! 0) []
   \<and> closestMatch (exampleBank ! 0)
        (budgetTransactions (rounds literal_Compile 7 [] 0 (initial exampleBank exampleBudget))) = Some 1
   \<and> \<bar>Timestamp (exampleBank ! 0) - Timestamp (exampleBudget ! 1)\<bar> < 7
   \<and> Matching (bankTransactions (compareTransactions literal_Compile 7 exampleBank exampleBudget []) ! 0)
        = Some (BudgetRef 1)
   \<and> Matching (budgetTransactions (compareTransactions literal_Compile 7 exampleBank exampleBudget []) ! 1)
        = Some (BankRef 0)"
proof -
  have h3: "0 < length exampleBank" by (simp add: exampleBank_def)
  have h4: "\<not> isFiltered literal_Compile (exampleBank ! 0) []" by simp
  have h5: "closestMatch (exampleBank ! 0)
        (budgetTransactions (rounds literal_Compile 7 [] 0 (initial exampleBank exampleBudget))) = Some 1"
    by code_simp
  have near: "\<bar>Timestamp (exampleBank ! 0) - Timestamp (exampleBudget ! 1)\<bar> < 7"
    by (simp add: exampleBank_def exampleBudget_def tx_def)
  note T = range_acceptance_is_strict[OF fresh_exampleBank fresh_exampleBudget h3 h4 h5]
  from T[THEN conjunct1] near
  have "Matching (bankTransactions (compareTransactions literal_Compile 7 exampleBank exampleBudget []) ! 0)
        = Some (BudgetRef 1)
   \<and> Matching (budgetTransactions (compareTransactions literal_Compile 7 exampleBank exampleBudget []) ! 1)
        = Some (BankRef 0)"
    by (rule iffD2)
  with fresh_exampleBank fresh_exampleBudget h3 h4 h5 near show ?thesis by simp
qed

text \<open>
  At the boundary the claim as stated fails: the only candidate has the amount of
  the bank transaction and lies exactly seven days before it (2024-01-03 and
  2024-01-10); it is selected as the closest match, it is not accepted, and the
  bank transaction is reported as missing.
\<close>

theorem range_boundary_counterexample:
  "compareTransactions literal_Compile 7 [tx 19732 ''rent'' (- 500)] [tx 19725 ''rent'' (- 500)] []
     = \<lparr> bankTransactions = [tx 19732 ''rent'' (- 500)],
         budgetTransactions = [tx 19725 ''rent'' (- 500)],
         missingTransactions = [tx 19732 ''rent'' (- 500)] \<rparr>
   \<and> closestMatch (tx 19732 ''rent'' (- 500)) [tx 19725 ''rent'' (- 500)] = Some 0
   \<and> Timestamp (tx 19732 ''rent'' (- 500)) - Timestamp (tx 19725 ''rent'' (- 500)) = 7"
  by code_simp


subsection \<open>The best match\<close>

text \<open>
  Claim C5. Take a run on transactions that come from the parser. When the function
  returns with the \<^verbatim>\<open>Matching\<close> of bank transaction \<open>i\<close> set, it points to a budget
  transaction \<open>j\<close> that points back, has exactly the same amount, has a timestamp on or
  before the bank transaction's (a delta of at least 0 hours), and was not matched
  before round \<open>i\<close>. Among all budget transactions of that amount that were not matched
  before round \<open>i\<close> and have a delta of at least 0, \<open>j\<close> has the smallest delta, and among
  those with the same delta the smallest index.
\<close>

theorem closest_candidate_is_matched:
  fixes Compile dateMatchRangeDays filters bankTs budgetTs i x
  defines "before \<equiv> rounds Compile dateMatchRangeDays filters i (initial bankTs budgetTs)"
    and "final \<equiv> compareTransactions Compile dateMatchRangeDays bankTs budgetTs filters"
  assumes fr: "fresh bankTs" "fresh budgetTs" and i: "i < length bankTs"
    and link: "Matching (bankTransactions final ! i) = Some x"
  shows "\<exists>j<length budgetTs. x = BudgetRef j
           \<and> Matching (budgetTransactions final ! j) = Some (BankRef i)
           \<and> Amount (budgetTs ! j) = Amount (bankTs ! i)
           \<and> Timestamp (budgetTs ! j) \<le> Timestamp (bankTs ! i)
           \<and> 0 \<le> delta (bankTs ! i) (budgetTs ! j)
           \<and> Matching (budgetTransactions before ! j) = None
           \<and> (\<forall>k<length budgetTs.
                 Amount (budgetTs ! k) = Amount (bankTs ! i)
                 \<and> Matching (budgetTransactions before ! k) = None
                 \<and> 0 \<le> delta (bankTs ! i) (budgetTs ! k) \<longrightarrow>
                 delta (bankTs ! i) (budgetTs ! j) \<le> delta (bankTs ! i) (budgetTs ! k)
                 \<and> (delta (bankTs ! i) (budgetTs ! k) = delta (bankTs ! i) (budgetTs ! j) \<longrightarrow> j \<le> k))"
proof -
  have I: "loopInv Compile filters bankTs budgetTs i before"
    unfolding before_def using fr i by (intro loopInv_rounds) auto
  have len: "length (budgetTransactions before) = length budgetTs"
    using I by (simp add: loopInv_def)
  note fl = final_link[where C = Compile and r = dateMatchRangeDays and F = filters,
      OF fr i, folded before_def final_def]
  from link obtain j where j: "j < length budgetTs" "x = BudgetRef j"
      "closestMatch (bankTs ! i) (budgetTransactions before) = Some j"
    unfolding fl by blast
  have sym: "Matching (budgetTransactions final ! j) = Some (BankRef i)"
    using final_link_back[OF fr i link[unfolded final_def]] j(2) by (simp add: final_def)
  note am = loopInv_budget_fields(1)[OF I] and de = loopInv_budget_fields(3)[OF I]
  from closestMatch_Some[OF j(3)]
  have sel: "Amount (bankTs ! i) = Amount (budgetTransactions before ! j)"
      "Matching (budgetTransactions before ! j) = None"
      "0 \<le> delta (bankTs ! i) (budgetTransactions before ! j)"
    and best: "\<And>k. k < length (budgetTransactions before) \<Longrightarrow>
        Amount (bankTs ! i) = Amount (budgetTransactions before ! k) \<Longrightarrow>
        Matching (budgetTransactions before ! k) = None \<Longrightarrow>
        0 \<le> delta (bankTs ! i) (budgetTransactions before ! k) \<Longrightarrow>
        delta (bankTs ! i) (budgetTransactions before ! j)
          \<le> delta (bankTs ! i) (budgetTransactions before ! k)
        \<and> (k < j \<longrightarrow> delta (bankTs ! i) (budgetTransactions before ! j)
              < delta (bankTs ! i) (budgetTransactions before ! k))"
    by blast+
  have amount: "Amount (budgetTs ! j) = Amount (bankTs ! i)"
    using sel(1) am[OF j(1)] by simp
  have nonneg: "0 \<le> delta (bankTs ! i) (budgetTs ! j)"
    using sel(3) de[OF j(1)] by simp
  have earlier: "Timestamp (budgetTs ! j) \<le> Timestamp (bankTs ! i)"
    using nonneg by (simp add: delta_nonneg_iff)
  have least: "delta (bankTs ! i) (budgetTs ! j) \<le> delta (bankTs ! i) (budgetTs ! k)
                 \<and> (delta (bankTs ! i) (budgetTs ! k) = delta (bankTs ! i) (budgetTs ! j) \<longrightarrow> j \<le> k)"
    if k: "k < length budgetTs" "Amount (budgetTs ! k) = Amount (bankTs ! i)"
      "Matching (budgetTransactions before ! k) = None" "0 \<le> delta (bankTs ! i) (budgetTs ! k)" for k
  proof -
    have "delta (bankTs ! i) (budgetTransactions before ! j)
          \<le> delta (bankTs ! i) (budgetTransactions before ! k)
        \<and> (k < j \<longrightarrow> delta (bankTs ! i) (budgetTransactions before ! j)
              < delta (bankTs ! i) (budgetTransactions before ! k))"
      using k am[OF k(1)] de[OF k(1)] len by (intro best) simp_all
    then show ?thesis
      using de[OF k(1)] de[OF j(1)] by (cases "k < j") auto
  qed
  show ?thesis
    using j(1,2) sym amount earlier nonneg sel(2) least by blast
qed

theorem closest_candidate_is_matched_witness:
  "fresh exampleBank \<and> fresh exampleBudget \<and> 1 < length exampleBank
   \<and> Matching (bankTransactions (compareTransactions literal_Compile 7 exampleBank exampleBudget []) ! 1)
        = Some (BudgetRef 2)
   \<and> Matching (budgetTransactions (compareTransactions literal_Compile 7 exampleBank exampleBudget []) ! 2)
        = Some (BankRef 1)
   \<and> Amount (exampleBudget ! 2) = Amount (exampleBank ! 1)
   \<and> Timestamp (exampleBudget ! 2) \<le> Timestamp (exampleBank ! 1)"
proof -
  have h3: "1 < length exampleBank" by (simp add: exampleBank_def)
  have h4: "Matching (bankTransactions (compareTransactions literal_Compile 7 exampleBank exampleBudget []) ! 1)
        = Some (BudgetRef 2)"
    by code_simp
  from closest_candidate_is_matched[OF fresh_exampleBank fresh_exampleBudget h3 h4]
  obtain j where "BudgetRef 2 = BudgetRef j"
      "Matching (budgetTransactions (compareTransactions literal_Compile 7 exampleBank exampleBudget []) ! j)
        = Some (BankRef 1)"
      "Amount (exampleBudget ! j) = Amount (exampleBank ! 1)"
      "Timestamp (exampleBudget ! j) \<le> Timestamp (exampleBank ! 1)"
    by blast
  then have "Matching (budgetTransactions (compareTransactions literal_Compile 7 exampleBank exampleBudget []) ! 2)
        = Some (BankRef 1)
   \<and> Amount (exampleBudget ! 2) = Amount (exampleBank ! 1)
   \<and> Timestamp (exampleBudget ! 2) \<le> Timestamp (exampleBank ! 1)"
    by simp
  with fresh_exampleBank fresh_exampleBudget h3 h4 show ?thesis by simp
qed


subsection \<open>Filtered bank transactions\<close>

text \<open>
  Claim C8. \<^verbatim>\<open>isFiltered\<close> is true exactly when some filter of the list has a pattern
  that compiles and matches the description and bounds, both inclusive, that enclose
  the amount. The result depends on the set of filters only, not on their order. In a
  run on transactions that come from the parser, a filtered bank transaction has no
  \<^verbatim>\<open>Matching\<close> when the function returns, no budget transaction points to it, and the
  result list holds no filtered transaction, so it does not hold this one.
\<close>

theorem filtered_is_excluded:
  fixes Compile dateMatchRangeDays filters bankTs budgetTs i t fs fs'
  defines "final \<equiv> compareTransactions Compile dateMatchRangeDays bankTs budgetTs filters"
  shows "(isFiltered Compile t fs \<longleftrightarrow>
            (\<exists>f\<in>set fs. (\<exists>re. Compile (FilterRegex f) = Some re \<and> re (Description t))
                \<and> MinAmount f \<le> Amount t \<and> Amount t \<le> MaxAmount f))
       \<and> (set fs = set fs' \<longrightarrow> isFiltered Compile t fs = isFiltered Compile t fs')
       \<and> (fresh bankTs \<and> fresh budgetTs \<and> i < length bankTs
            \<and> isFiltered Compile (bankTs ! i) filters \<longrightarrow>
            Matching (bankTransactions final ! i) = None
            \<and> (\<forall>j<length budgetTs. Matching (budgetTransactions final ! j) \<noteq> Some (BankRef i))
            \<and> (\<forall>m\<in>set (missingTransactions final). \<not> isFiltered Compile m filters)
            \<and> bankTs ! i \<notin> set (missingTransactions final))"
proof -
  have order: "isFiltered Compile t fs = isFiltered Compile t fs'" if "set fs = set fs'"
    unfolding isFiltered_iff using that by simp
  have excluded: "Matching (bankTransactions final ! i) = None
            \<and> (\<forall>j<length budgetTs. Matching (budgetTransactions final ! j) \<noteq> Some (BankRef i))
            \<and> (\<forall>m\<in>set (missingTransactions final). \<not> isFiltered Compile m filters)
            \<and> bankTs ! i \<notin> set (missingTransactions final)"
    if fr: "fresh bankTs" "fresh budgetTs" and i: "i < length bankTs"
      and f: "isFiltered Compile (bankTs ! i) filters"
  proof -
    have none: "Matching (bankTransactions final ! i) = None"
    proof (cases "Matching (bankTransactions final ! i)")
      case (Some x)
      from final_link_back[OF fr i Some[unfolded final_def]] f show ?thesis by simp
    qed simp
    have nolink: "Matching (budgetTransactions final ! j) \<noteq> Some (BankRef i)"
      if "j < length budgetTs" for j
    proof
      assume "Matching (budgetTransactions final ! j) = Some (BankRef i)"
      from final_budget_link[OF fr that this[unfolded final_def]] none
      show False by (simp add: final_def)
    qed
    have listed: "\<not> isFiltered Compile m filters" if "m \<in> set (missingTransactions final)" for m
      using that unfolding final_def final_missing[OF fr] by auto
    from listed f have "bankTs ! i \<notin> set (missingTransactions final)" by blast
    with none nolink listed show ?thesis by blast
  qed
  show ?thesis using isFiltered_iff[of Compile t fs] order excluded by blast
qed

theorem filtered_is_excluded_witness:
  "fresh exampleBank \<and> fresh exampleBudget \<and> 1 < length exampleBank
   \<and> isFiltered literal_Compile (exampleBank ! 1) exampleFilters
   \<and> Matching (bankTransactions
        (compareTransactions literal_Compile 7 exampleBank exampleBudget exampleFilters) ! 1) = None
   \<and> exampleBank ! 1 \<notin> set (missingTransactions
        (compareTransactions literal_Compile 7 exampleBank exampleBudget exampleFilters))"
proof -
  have h3: "1 < length exampleBank" by (simp add: exampleBank_def)
  have h4: "isFiltered literal_Compile (exampleBank ! 1) exampleFilters" by code_simp
  note T = filtered_is_excluded[where Compile = literal_Compile and dateMatchRangeDays = 7
      and filters = exampleFilters and bankTs = exampleBank and budgetTs = exampleBudget and i = 1,
      THEN conjunct2, THEN conjunct2, rule_format]
  have "Matching (bankTransactions
        (compareTransactions literal_Compile 7 exampleBank exampleBudget exampleFilters) ! 1) = None
   \<and> exampleBank ! 1 \<notin> set (missingTransactions
        (compareTransactions literal_Compile 7 exampleBank exampleBudget exampleFilters))"
    using T fresh_exampleBank fresh_exampleBudget h3 h4 by blast
  with fresh_exampleBank fresh_exampleBudget h3 h4 show ?thesis by simp
qed


subsection \<open>The result list\<close>

text \<open>
  Claim C9. In a run on transactions that come from the parser, the result list is
  the list of the bank transactions, in input order, at the positions that are not
  filtered and have no \<^verbatim>\<open>Matching\<close> when the function returns: every position that is
  not filtered is either matched or reported, never both. Read off the bank slice
  after the run, it is the list of its transactions that are not filtered and not
  matched.
\<close>

theorem missing_are_the_unmatched:
  fixes Compile dateMatchRangeDays filters bankTs budgetTs
  defines "final \<equiv> compareTransactions Compile dateMatchRangeDays bankTs budgetTs filters"
  assumes fr: "fresh bankTs" "fresh budgetTs"
  shows "missingTransactions final =
           map (nth bankTs)
             (filter (\<lambda>i. \<not> isFiltered Compile (bankTs ! i) filters
                        \<and> Matching (bankTransactions final ! i) = None) [0..<length bankTs])
       \<and> missingTransactions final =
           filter (\<lambda>t. \<not> isFiltered Compile t filters \<and> Matching t = None) (bankTransactions final)"
proof -
  let ?P = "\<lambda>i. \<not> isFiltered Compile (bankTs ! i) filters
                        \<and> Matching (bankTransactions final ! i) = None"
  let ?Q = "\<lambda>t. \<not> isFiltered Compile t filters \<and> Matching t = None"
  have byindex: "missingTransactions final = map (nth bankTs) (filter ?P [0..<length bankTs])"
    unfolding final_def by (rule final_missing[OF fr])
  have len: "length (bankTransactions final) = length bankTs"
    unfolding final_def by (rule final_bank_length[OF fr])
  have fields: "bankTransactions final ! i = (bankTs ! i)\<lparr>Matching := Matching (bankTransactions final ! i)\<rparr>"
    if "i < length bankTs" for i
    unfolding final_def by (rule final_bank_fields[OF fr that])
  have Q: "?Q (bankTransactions final ! i) = ?P i" if "i < length bankTs" for i
    by (subst fields[OF that]) simp
  have same: "bankTransactions final ! i = bankTs ! i" if "i < length bankTs" "?P i" for i
    using fields[OF that(1)] that(2) fresh_update_None[OF fr(1) that(1)] by simp
  have "filter ?Q (bankTransactions final)
          = map (nth (bankTransactions final))
              (filter (\<lambda>i. ?Q (bankTransactions final ! i)) [0..<length bankTs])"
    using filter_by_index[of ?Q "bankTransactions final"] len by simp
  also have "filter (\<lambda>i. ?Q (bankTransactions final ! i)) [0..<length bankTs]
               = filter ?P [0..<length bankTs]"
    by (rule filter_cong) (auto simp: Q)
  also have "map (nth (bankTransactions final)) (filter ?P [0..<length bankTs])
               = map (nth bankTs) (filter ?P [0..<length bankTs])"
    by (rule map_cong) (auto simp: same)
  finally have "filter ?Q (bankTransactions final) = missingTransactions final"
    using byindex by simp
  with byindex show ?thesis by simp
qed

theorem missing_are_the_unmatched_witness:
  "fresh [tx 19732 ''rent'' (- 500), tx 19733 ''fee'' (- 200)]
   \<and> fresh [tx 19725 ''rent'' (- 500), tx 19731 ''fee'' (- 200)]
   \<and> missingTransactions (compareTransactions literal_Compile 7
        [tx 19732 ''rent'' (- 500), tx 19733 ''fee'' (- 200)]
        [tx 19725 ''rent'' (- 500), tx 19731 ''fee'' (- 200)] [])
      = [tx 19732 ''rent'' (- 500)]"
proof -
  let ?bank = "[tx 19732 ''rent'' (- 500), tx 19733 ''fee'' (- 200)]"
  let ?budget = "[tx 19725 ''rent'' (- 500), tx 19731 ''fee'' (- 200)]"
  have h1: "fresh ?bank" by (simp add: fresh_def tx_def)
  have h2: "fresh ?budget" by (simp add: fresh_def tx_def)
  have b: "bankTransactions (compareTransactions literal_Compile 7 ?bank ?budget [])
             = [tx 19732 ''rent'' (- 500), (tx 19733 ''fee'' (- 200))\<lparr>Matching := Some (BudgetRef 1)\<rparr>]"
    by code_simp
  from missing_are_the_unmatched[OF h1 h2, of literal_Compile 7 "[]", THEN conjunct2]
  have "missingTransactions (compareTransactions literal_Compile 7 ?bank ?budget [])
          = [tx 19732 ''rent'' (- 500)]"
    unfolding b by (simp add: tx_def)
  with h1 h2 show ?thesis by simp
qed


section \<open>Properties of the record parser\<close>

subsection \<open>The scan for the header and the rows of the examples\<close>

lemma parseRows_not_Err: "parseRows pf ti di ai xi records acc \<noteq> Err e"
  by (induction records arbitrary: acc) (auto split: result.splits)

lemma findStart_append:
  "findStart (xs @ ys) i start = findStart ys (i + int (length xs)) (findStart xs i start)"
  by (induction xs arbitrary: i start) (simp_all add: add.assoc)

lemma findStart_none:
  "\<forall>record\<in>set records. \<not> isHeader record \<Longrightarrow> findStart records i start = start"
  by (induction records arbitrary: i) simp_all

lemma findStart_last:
  assumes "k < length records" and "isHeader (records ! k)"
    and "\<forall>j. k < j \<and> j < length records \<longrightarrow> \<not> isHeader (records ! j)"
  shows "findStart records i start = i + int k + 2"
proof -
  have split: "records = take k records @ records ! k # drop (Suc k) records"
    using assms(1) by (simp add: id_take_nth_drop)
  have rest: "\<forall>record\<in>set (drop (Suc k) records). \<not> isHeader record"
  proof
    fix row assume "row \<in> set (drop (Suc k) records)"
    then obtain n where "n < length (drop (Suc k) records)" "row = drop (Suc k) records ! n"
      by (auto simp: in_set_conv_nth)
    then show "\<not> isHeader row" using assms(3) by auto
  qed
  have "findStart records i start
          = findStart (records ! k # drop (Suc k) records) (i + int k)
              (findStart (take k records) i start)"
    using assms(1) by (subst split, subst findStart_append) simp
  also have "\<dots> = i + int k + 2"
    using assms(2) rest by (simp add: findStart_none)
  finally show ?thesis .
qed

lemma findStart_some:
  assumes "\<exists>record\<in>set records. isHeader record"
  shows "\<exists>k<length records. isHeader (records ! k)
           \<and> (\<forall>j. k < j \<and> j < length records \<longrightarrow> \<not> isHeader (records ! j))"
proof -
  let ?H = "\<lambda>k. k < length records \<and> isHeader (records ! k)"
  from assms obtain k0 where k0: "?H k0" by (auto simp: in_set_conv_nth)
  have bound: "\<And>y. ?H y \<Longrightarrow> y \<le> length records" by simp
  have "?H (Greatest ?H)" by (rule GreatestI_nat[of ?H k0 "length records", OF k0 bound])
  moreover have "\<And>j. ?H j \<Longrightarrow> j \<le> Greatest ?H"
    by (rule Greatest_le_nat[of ?H _ "length records", OF _ bound])
  ultimately show ?thesis by (intro exI[of _ "Greatest ?H"]) (auto simp: not_less[symmetric])
qed


lemma isHeader_rows:
  "isHeader headerRow" "\<not> isHeader balanceRow" "\<not> isHeader coffeeRow" "\<not> isHeader rentRow"
  "\<not> isHeader [''Date'', ''Description'', ''Amount'']" "\<not> isHeader [''01/02/2024'']"
  "\<not> isHeader [''Total'']"
  by (simp_all add: isHeader_def headerRow_def balanceRow_def coffeeRow_def rentRow_def)

lemmas parse_defs = time_Parse_def getyear_def isDigit_def digitVal_def daysIn_def isLeap_def
  daysSinceEpoch_def Let_def

lemma time_Parse_examples:
  "time_Parse ''01/01/2024'' = Some 19723"
  "time_Parse ''01/02/2024'' = Some 19724"
  "time_Parse ''01/03/2024'' = Some 19725"
  "time_Parse ''Date'' = None"
  "time_Parse ''Total'' = None"
  by (simp_all add: parse_defs)

lemma round64_examples:
  "round64 (- (9 / 2)) = Finite (- (9 / 2))"
  "round64 (- 500) = Finite (- 500)"
  by code_simp+

lemma mul100_examples:
  "mul100 (Finite (- (9 / 2))) = Finite (- 450)"
  "mul100 (Finite (- 500)) = Finite (- 50000)"
  by code_simp+

lemma toInt_examples:
  "toInt (Finite (- 450)) = - 450"
  "toInt (Finite (- 50000)) = - 50000"
  by code_simp+

lemma decimal_ParseFloat_examples:
  "decimal_ParseFloat ''-4.50'' = Some (Finite (- (9 / 2)))"
  "decimal_ParseFloat ''-500.00'' = Some (Finite (- 500))"
  "decimal_ParseFloat [] = None"
  by (simp_all add: decimal_ParseFloat_def decimalValue_def isDigit_def digitsVal_def
        digitVal_def Let_def round64_examples)

lemma parse_rows:
  "parseTransaction decimal_ParseFloat headerRow 0 1 2 (- 1) = Err InvalidTimestamp"
  "parseTransaction decimal_ParseFloat balanceRow 0 1 2 (- 1) = Err InvalidAmount"
  "parseTransaction decimal_ParseFloat coffeeRow 0 1 2 (- 1)
     = Ok \<lparr> Timestamp = 19724, Description = ''COFFEE'', Details = [], Amount = - 450,
            Matching = None \<rparr>"
  "parseTransaction decimal_ParseFloat rentRow 0 1 2 (- 1)
     = Ok \<lparr> Timestamp = 19725, Description = ''RENT'', Details = [], Amount = - 50000,
            Matching = None \<rparr>"
  "parseTransaction decimal_ParseFloat [''01/02/2024''] 0 1 2 (- 1) = Panic"
  "parseTransaction decimal_ParseFloat [''Total''] 0 1 2 (- 1) = Err InvalidTimestamp"
  by (simp_all add: parseTransaction_def inRange_def stripCommas_def headerRow_def
        balanceRow_def coffeeRow_def rentRow_def time_Parse_examples
        decimal_ParseFloat_examples mul100_examples toInt_examples)

subsection \<open>Where parsing starts\<close>

text \<open>
  Claim C2, as the code has it. A row is a header when it has more than three fields
  and its first three fields are \<^verbatim>\<open>Date\<close>, \<^verbatim>\<open>Description\<close> and \<^verbatim>\<open>Amount\<close>.
  \<^verbatim>\<open>parseBankTransactions\<close> returns an error if and only if no row of the input is a
  header. Otherwise its result is the result of the row loop on the rows from two
  past the last header on: no row before that point is parsed.
\<close>

theorem bank_parse_starts_after_last_header:
  "((\<exists>e. parseBankTransactions pf bankRecords = Err e) \<longleftrightarrow>
      \<not> (\<exists>row\<in>set bankRecords. isHeader row))
   \<and> (\<forall>k. k < length bankRecords \<and> isHeader (bankRecords ! k)
          \<and> (\<forall>j. k < j \<and> j < length bankRecords \<longrightarrow> \<not> isHeader (bankRecords ! j)) \<longrightarrow>
          parseBankTransactions pf bankRecords =
            parseRows pf 0 1 2 (- 1) (drop (k + 2) bankRecords) [])
   \<and> (isHeader row \<longleftrightarrow>
        3 < length row \<and> take 3 row = [''Date'', ''Description'', ''Amount''])"
proof -
  have started: "parseBankTransactions pf bankRecords =
            parseRows pf 0 1 2 (- 1) (drop (k + 2) bankRecords) []"
    if "k < length bankRecords" "isHeader (bankRecords ! k)"
       "\<forall>j. k < j \<and> j < length bankRecords \<longrightarrow> \<not> isHeader (bankRecords ! j)" for k
    using findStart_last[OF that, of 0 "- 1"]
    by (simp add: parseBankTransactions_def nat_add_distrib)
  have none: "parseBankTransactions pf bankRecords = Err StartNotFound"
    if "\<not> (\<exists>row\<in>set bankRecords. isHeader row)"
    using that findStart_none[of bankRecords 0 "- 1"] by (simp add: parseBankTransactions_def)
  have some: "parseBankTransactions pf bankRecords \<noteq> Err e"
    if "\<exists>row\<in>set bankRecords. isHeader row" for e
  proof -
    from findStart_some[OF that] obtain k where "k < length bankRecords"
        "isHeader (bankRecords ! k)"
        "\<forall>j. k < j \<and> j < length bankRecords \<longrightarrow> \<not> isHeader (bankRecords ! j)"
      by blast
    from started[OF this] show ?thesis by (simp add: parseRows_not_Err)
  qed
  have fails: "(\<exists>e. parseBankTransactions pf bankRecords = Err e) \<longleftrightarrow>
      \<not> (\<exists>row\<in>set bankRecords. isHeader row)"
    using none some by blast
  have header: "isHeader row \<longleftrightarrow>
        3 < length row \<and> take 3 row = [''Date'', ''Description'', ''Amount'']"
    by (cases row; cases "tl row"; cases "tl (tl row)"; cases "tl (tl (tl row))")
       (auto simp: isHeader_def)
  show ?thesis using fails started header by (intro conjI allI impI) auto
qed

theorem bank_parse_starts_after_last_header_witness:
  "1 < length [balanceRow, headerRow, balanceRow, rentRow]
   \<and> isHeader ([balanceRow, headerRow, balanceRow, rentRow] ! 1)
   \<and> parseBankTransactions decimal_ParseFloat [balanceRow, headerRow, balanceRow, rentRow] =
       parseRows decimal_ParseFloat 0 1 2 (- 1) [rentRow] []"
proof -
  let ?rows = "[balanceRow, headerRow, balanceRow, rentRow]"
  have h1: "1 < length ?rows" by simp
  have h2: "isHeader (?rows ! 1)" by (simp add: isHeader_rows)
  have h3: "\<forall>j. 1 < j \<and> j < length ?rows \<longrightarrow> \<not> isHeader (?rows ! j)"
  proof (intro allI impI)
    fix j assume "1 < j \<and> j < length ?rows"
    then have "j = 2 \<or> j = 3" by auto
    then show "\<not> isHeader (?rows ! j)"
      by (auto simp: isHeader_rows)
  qed
  from bank_parse_starts_after_last_header[of decimal_ParseFloat ?rows,
      THEN conjunct2, THEN conjunct1, rule_format, of 1] h1 h2 h3
  have "parseBankTransactions decimal_ParseFloat ?rows =
       parseRows decimal_ParseFloat 0 1 2 (- 1) (drop (1 + 2) ?rows) []"
    by blast
  then have "parseBankTransactions decimal_ParseFloat ?rows =
       parseRows decimal_ParseFloat 0 1 2 (- 1) [rentRow] []"
    by simp
  with h1 h2 show ?thesis by simp
qed

text \<open>
  The claim as stated fails in two places. A row of exactly the three labels is not
  taken as a header, so an input that consists of it is rejected. And with two
  headers in the input the parse starts after the second one: the transaction
  between the two headers, which the parse returns when the second header is
  absent, is never read.
\<close>

theorem header_scan_counterexample:
  "parseBankTransactions decimal_ParseFloat [[''Date'', ''Description'', ''Amount'']]
     = Err StartNotFound
   \<and> parseBankTransactions decimal_ParseFloat
       [headerRow, balanceRow, coffeeRow, headerRow, balanceRow, rentRow]
     = Ok [\<lparr> Timestamp = 19725, Description = ''RENT'', Details = [], Amount = - 50000,
             Matching = None \<rparr>]
   \<and> parseBankTransactions decimal_ParseFloat [headerRow, balanceRow, coffeeRow]
     = Ok [\<lparr> Timestamp = 19724, Description = ''COFFEE'', Details = [], Amount = - 450,
             Matching = None \<rparr>]"
  by (simp add: parseBankTransactions_def isHeader_rows parse_rows)


subsection \<open>The amount in cents\<close>

text \<open>
  Claim C3 fails on the code. The amount text \<^verbatim>\<open>0.29\<close> is parsed to the binary64 number
  nearest to 0.29, the product with 100 is the binary64 number 28.999999999999996\<dots>,
  and the conversion to \<^verbatim>\<open>int\<close> drops the fraction: the amount is 28 cents, not 29. In
  the same way \<^verbatim>\<open>-1.15\<close> becomes -114 cents, and \<^verbatim>\<open>0.019\<close>, whose product 1.9 is
  nowhere near a whole number, becomes 1 cent where rounding gives 2.
\<close>

theorem cents_are_truncated:
  "parseTransaction decimal_ParseFloat [''01/02/2024'', ''COFFEE'', ''0.29''] 0 1 2 (- 1)
     = Ok \<lparr> Timestamp = 19724, Description = ''COFFEE'', Details = [], Amount = 28,
            Matching = None \<rparr>
   \<and> parseTransaction decimal_ParseFloat [''01/02/2024'', ''COFFEE'', ''-1.15''] 0 1 2 (- 1)
     = Ok \<lparr> Timestamp = 19724, Description = ''COFFEE'', Details = [], Amount = - 114,
            Matching = None \<rparr>
   \<and> parseTransaction decimal_ParseFloat [''01/02/2024'', ''COFFEE'', ''0.019''] 0 1 2 (- 1)
     = Ok \<lparr> Timestamp = 19724, Description = ''COFFEE'', Details = [], Amount = 1,
            Matching = None \<rparr>"
  by code_simp


subsection \<open>Short rows\<close>

text \<open>
  Claim C4 fails on the code. A row that holds a valid date and nothing else passes
  the timestamp parse, and the read of its amount field is out of range: the call
  panics instead of returning an error, and the loop of \<^verbatim>\<open>parseBankTransactions\<close>
  never reaches the rows after it. A short row whose first field is not a date is
  skipped as the claim says.
\<close>

theorem short_row_panics:
  "parseTransaction decimal_ParseFloat [''01/02/2024''] 0 1 2 (- 1) = Panic
   \<and> parseBankTransactions decimal_ParseFloat [headerRow, balanceRow, [''01/02/2024''], rentRow]
       = Panic
   \<and> parseBankTransactions decimal_ParseFloat [headerRow, balanceRow, [''Total''], rentRow]
       = Ok [\<lparr> Timestamp = 19725, Description = ''RENT'', Details = [], Amount = - 50000,
               Matching = None \<rparr>]"
  by (simp add: parseBankTransactions_def isHeader_rows parse_rows)


section \<open>Properties of the filter engine\<close>

lemma literal_Compile_examples:
  "literal_Compile ''('' = None"
  "\<exists>re. literal_Compile ''fee'' = Some re \<and> re ''fee''"
  by (simp_all add: literal_Compile_def isPlain_def)

subsection \<open>Loading the filters\<close>

text \<open>
  Claim C7, as the code has it. \<^verbatim>\<open>loadFilters\<close> succeeds exactly when the file is read
  and decoded, and returns the decoded list whatever its patterns are; it returns an
  error exactly when the read or the decoding fails. A pattern that does not compile
  is met by \<^verbatim>\<open>regexp.MatchString\<close> at every call in \<^verbatim>\<open>isFiltered\<close>, which returns no
  match together with the error, and \<^verbatim>\<open>isFiltered\<close> drops the error: a list of that one
  rule filters nothing.
\<close>

theorem loadFilters_does_not_validate:
  "(loadFilters ReadFile Unmarshal filterPath = Ok filters \<longleftrightarrow>
      (\<exists>buf. ReadFile filterPath = Some buf \<and> Unmarshal buf = Some filters))
   \<and> ((\<exists>e. loadFilters ReadFile Unmarshal filterPath = Err e) \<longleftrightarrow>
      (ReadFile filterPath = None
       \<or> (\<exists>buf. ReadFile filterPath = Some buf \<and> Unmarshal buf = None)))
   \<and> (Compile (FilterRegex f) = None \<longrightarrow>
        regexp_MatchString Compile (FilterRegex f) (Description t) = (False, True)
        \<and> \<not> isFiltered Compile t [f])"
  by (auto simp: loadFilters_def regexp_MatchString_def split: option.splits)

theorem loadFilters_does_not_validate_witness:
  "literal_Compile (FilterRegex \<lparr> FilterRegex = ''('', MinAmount = 0, MaxAmount = 100 \<rparr>) = None
   \<and> \<not> isFiltered literal_Compile (tx 19724 ''('' 50)
        [\<lparr> FilterRegex = ''('', MinAmount = 0, MaxAmount = 100 \<rparr>]"
proof -
  have h: "literal_Compile (FilterRegex \<lparr> FilterRegex = ''('', MinAmount = 0, MaxAmount = 100 \<rparr>) = None"
    by (simp add: literal_Compile_examples)
  from loadFilters_does_not_validate[of _ _ _ _ literal_Compile
      "\<lparr> FilterRegex = ''('', MinAmount = 0, MaxAmount = 100 \<rparr>" "tx 19724 ''('' 50",
      THEN conjunct2, THEN conjunct2, rule_format, OF h]
  have "\<not> isFiltered literal_Compile (tx 19724 ''('' 50)
        [\<lparr> FilterRegex = ''('', MinAmount = 0, MaxAmount = 100 \<rparr>]"
    by (rule conjunct2)
  with h show ?thesis by simp
qed

text \<open>
  The claim as stated fails: the file of the example holds a rule whose pattern is
  not a regular expression, and loading it succeeds.
\<close>

theorem invalid_pattern_is_loaded_counterexample:
  "loadFilters exampleReadFile exampleUnmarshal ''filter.json''
     = Ok [\<lparr> FilterRegex = ''('', MinAmount = 0, MaxAmount = 100 \<rparr>]
   \<and> literal_Compile ''('' = None"
  by (simp add: loadFilters_def exampleReadFile_def exampleUnmarshal_def literal_Compile_examples)


subsection \<open>Rules with an invalid pattern\<close>

text \<open>
  Claim C10. \<^verbatim>\<open>isFiltered\<close> returns a truth value for every input and has no error
  result. A rule whose pattern does not compile yields no match, and the list
  filters a transaction exactly as if the rule were not in it: the rules before and
  after it are evaluated as usual. When a transaction is filtered, some rule with a
  pattern that compiles matches its description; a list of rules with invalid
  patterns only filters nothing.
\<close>

theorem invalid_pattern_never_filters:
  "(Compile (FilterRegex f) = None \<longrightarrow>
       fst (regexp_MatchString Compile (FilterRegex f) (Description t)) = False
       \<and> isFiltered Compile t (fs1 @ f # fs2) = isFiltered Compile t (fs1 @ fs2))
   \<and> (isFiltered Compile t fs \<longrightarrow>
        (\<exists>g\<in>set fs. \<exists>re. Compile (FilterRegex g) = Some re \<and> re (Description t)))
   \<and> ((\<forall>g\<in>set fs. Compile (FilterRegex g) = None) \<longrightarrow> \<not> isFiltered Compile t fs)"
proof -
  have skip: "isFiltered Compile t (fs1 @ f # fs2) = isFiltered Compile t (fs1 @ fs2)"
    if "Compile (FilterRegex f) = None"
    unfolding isFiltered_iff using that by auto
  have nomatch: "fst (regexp_MatchString Compile (FilterRegex f) (Description t)) = False"
    if "Compile (FilterRegex f) = None"
    using that by (simp add: regexp_MatchString_def)
  have valid: "\<exists>g\<in>set fs. \<exists>re. Compile (FilterRegex g) = Some re \<and> re (Description t)"
    if "isFiltered Compile t fs"
    using that unfolding isFiltered_iff by blast
  have allbad: "\<not> isFiltered Compile t fs" if "\<forall>g\<in>set fs. Compile (FilterRegex g) = None"
    using that unfolding isFiltered_iff by auto
  show ?thesis using skip nomatch valid allbad by blast
qed

theorem invalid_pattern_never_filters_witness:
  "literal_Compile (FilterRegex \<lparr> FilterRegex = ''('', MinAmount = - 1000, MaxAmount = 0 \<rparr>) = None
   \<and> isFiltered literal_Compile (tx 19733 ''fee'' (- 200))
        ([] @ \<lparr> FilterRegex = ''('', MinAmount = - 1000, MaxAmount = 0 \<rparr> # exampleFilters)
   \<and> \<not> isFiltered literal_Compile (tx 19733 ''fee'' (- 200))
        ([] @ \<lparr> FilterRegex = ''('', MinAmount = - 1000, MaxAmount = 0 \<rparr> # [])"
proof -
  let ?bad = "\<lparr> FilterRegex = ''('', MinAmount = - 1000, MaxAmount = 0 \<rparr>"
  let ?t = "tx 19733 ''fee'' (- 200)"
  have h: "literal_Compile (FilterRegex ?bad) = None"
    by (simp add: literal_Compile_examples)
  note T = invalid_pattern_never_filters[of literal_Compile ?bad ?t,
      THEN conjunct1, rule_format, OF h, THEN conjunct2]
  have good: "isFiltered literal_Compile ?t ([] @ exampleFilters)" by code_simp
  have empty: "\<not> isFiltered literal_Compile ?t ([] @ [])" by simp
  from T[of "[]" exampleFilters] good
  have a: "isFiltered literal_Compile ?t ([] @ ?bad # exampleFilters)" by simp
  from T[of "[]" "[]"] empty
  have b: "\<not> isFiltered literal_Compile ?t ([] @ ?bad # [])" by simp
  from h a b show ?thesis by simp
qed

end
